theory Spec2Isabelle
  imports Complex_Main "HOL-Library.AList"
begin

section \<open>Data model of the assessment wizard (static/src/js/create/helpers.js)\<close>

text \<open>
  A JavaScript object with string keys is an association list of its own properties
  in insertion order: \<open>Object.values\<close> is \<open>map snd\<close> and a \<open>for..in\<close> loop walks the list
  (the objects of the data model inherit no enumerable property). JavaScript
  enumerates keys that look like array indices first; no function below depends on
  the order of enumeration for its result.
\<close>

type_synonym 'v obj = "(string \<times> 'v) list"

datatype js_error = QuotaExceededError | SecurityError | SyntaxError | TypeError

text \<open>
  A property read \<open>ob[k]\<close> finds an own property first and then follows the prototype
  chain: a plain object inherits the members of \<open>Object.prototype\<close>. These are built-in
  functions, here with their \<open>length\<close>, but for \<open>__proto__\<close>, whose getter returns
  \<open>Object.prototype\<close> itself. All of them are truthy and none has a property \<open>areas\<close>,
  \<open>filter\<close> or, for \<open>Object.prototype\<close>, \<open>length\<close>.
\<close>

datatype builtin = Fn nat | Proto_object

definition object_prototype :: "builtin obj" where
  "object_prototype =
     [(''constructor'', Fn 1), (''__defineGetter__'', Fn 2), (''__defineSetter__'', Fn 2),
      (''hasOwnProperty'', Fn 1), (''__lookupGetter__'', Fn 1), (''__lookupSetter__'', Fn 1),
      (''isPrototypeOf'', Fn 1), (''propertyIsEnumerable'', Fn 1), (''toString'', Fn 0),
      (''valueOf'', Fn 0), (''__proto__'', Proto_object), (''toLocaleString'', Fn 0)]"

datatype 'v property = Own 'v | Inherited builtin | Missing

definition js_get :: "'v obj \<Rightarrow> string \<Rightarrow> 'v property" where
  "js_get ob k =
     (case map_of ob k of
        Some v \<Rightarrow> Own v
      | None \<Rightarrow> (case map_of object_prototype k of Some m \<Rightarrow> Inherited m | None \<Rightarrow> Missing))"

text \<open>The key is not an own property of the object and names a member of \<open>Object.prototype\<close>.\<close>

definition inherits :: "'v obj \<Rightarrow> string \<Rightarrow> bool" where
  "inherits ob k = (map_of ob k = None \<and> map_of object_prototype k \<noteq> None)"

text \<open>
  A property write \<open>ob[k] = v\<close> of a primitive value \<open>v\<close> sets or creates the own property
  (an existing key keeps its place, a new key goes to the end), except that for
  \<open>__proto__\<close>, unless the object has an own property of that name, it runs the
  inherited setter, which ignores a value that is neither an object nor \<open>null\<close>.
\<close>

definition js_set_primitive :: "string \<Rightarrow> 'v \<Rightarrow> 'v obj \<Rightarrow> 'v obj" where
  "js_set_primitive k v ob =
     (if k = ''__proto__'' \<and> map_of ob k = None then ob else AList.update k v ob)"

text \<open>
  Configuration: \<open>{ domains: [ { id, name, areas: [ { id, name, questions: [ { text } ] } ] } ] }\<close>.
  A question is its text. \<open>calculateDomainScore\<close> reads \<open>area.questions?.length\<close>, so the
  field may be absent: \<open>None\<close>.
\<close>

record area =
  area_id :: string
  area_name :: string
  questions :: "string list option"

record domain =
  domain_id :: string
  domain_name :: string
  areas :: "area list"

record config =
  domains :: "domain list"

text \<open>Selection state: \<open>{ domains: { [domId]: { selected, areas: { [areaId]: bool } } } }\<close>.\<close>

record dom_sel =
  selected :: bool
  sel_areas :: "bool obj"

record selection_state =
  sel_domains :: "dom_sel obj"

subsection \<open>getSelectedDomains\<close>

text \<open>
  \<open>domSel.areas[a.id]\<close> used as a filter condition: an own flag counts as it is, an
  inherited member is truthy, a key found nowhere reads \<open>undefined\<close>, which is falsy.
\<close>

definition area_checked :: "dom_sel \<Rightarrow> area \<Rightarrow> bool" where
  "area_checked domSel a =
     (case js_get (sel_areas domSel) (area_id a) of
        Own b \<Rightarrow> b
      | Inherited m \<Rightarrow> True
      | Missing \<Rightarrow> False)"

text \<open>
  The \<open>for (const domain of config.domains)\<close> loop; the third argument is the array
  \<open>selected\<close> built so far, \<open>push\<close> appends at its end. When \<open>domain.id\<close> has no entry
  but names a member of \<open>Object.prototype\<close>, \<open>domSel\<close> is that member: \<open>!domSel\<close> is false,
  \<open>domSel.areas\<close> is \<open>undefined\<close> and the filter callback throws a TypeError on the
  first area; with no area the callback never runs and nothing is pushed.
\<close>

fun getSelectedDomains_loop ::
  "domain list \<Rightarrow> selection_state \<Rightarrow> domain list \<Rightarrow> js_error + domain list" where
  "getSelectedDomains_loop [] selectionState selected_acc = Inr selected_acc"
| "getSelectedDomains_loop (domain # rest) selectionState selected_acc =
     (case js_get (sel_domains selectionState) (domain_id domain) of
        Missing \<Rightarrow> getSelectedDomains_loop rest selectionState selected_acc
      | Inherited m \<Rightarrow>
          (if areas domain = [] then getSelectedDomains_loop rest selectionState selected_acc
           else Inl TypeError)
      | Own domSel \<Rightarrow>
          (let selectedAreas = filter (area_checked domSel) (areas domain)
           in if length selectedAreas > 0
              then getSelectedDomains_loop rest selectionState
                     (selected_acc @ [domain\<lparr>areas := selectedAreas\<rparr>])
              else getSelectedDomains_loop rest selectionState selected_acc))"

definition getSelectedDomains :: "config \<Rightarrow> selection_state \<Rightarrow> js_error + domain list" where
  "getSelectedDomains cfg selectionState =
     getSelectedDomains_loop (domains cfg) selectionState []"

text \<open>
  The selection derivation in the specification's words: the per-area flag of an area
  under a domain (not true when the domain has no entry or the area has no flag), and
  the domains in configuration order with their areas filtered by it, those left
  without an area dropped.
\<close>

definition area_flag :: "selection_state \<Rightarrow> domain \<Rightarrow> area \<Rightarrow> bool" where
  "area_flag selectionState d a =
     (case map_of (sel_domains selectionState) (domain_id d) of
        None \<Rightarrow> False
      | Some domSel \<Rightarrow> map_of (sel_areas domSel) (area_id a) = Some True)"

definition spec_selected_domains :: "config \<Rightarrow> selection_state \<Rightarrow> domain list" where
  "spec_selected_domains cfg selectionState =
     filter (\<lambda>d. areas d \<noteq> [])
       (map (\<lambda>d. d\<lparr>areas := filter (area_flag selectionState d) (areas d)\<rparr>) (domains cfg))"

text \<open>
  No domain id of the configuration resolves to an inherited member of the selection
  state's \<open>domains\<close> object; and the same for the area ids of every domain that has an
  entry, in that entry's \<open>areas\<close> object.
\<close>

definition domain_ids_resolve :: "config \<Rightarrow> selection_state \<Rightarrow> bool" where
  "domain_ids_resolve cfg selectionState =
     list_all (\<lambda>d. \<not> inherits (sel_domains selectionState) (domain_id d)) (domains cfg)"

definition area_ids_resolve :: "config \<Rightarrow> selection_state \<Rightarrow> bool" where
  "area_ids_resolve cfg selectionState =
     list_all
       (\<lambda>d. case map_of (sel_domains selectionState) (domain_id d) of
               None \<Rightarrow> True
             | Some domSel \<Rightarrow> list_all (\<lambda>a. \<not> inherits (sel_areas domSel) (area_id a)) (areas d))
       (domains cfg)"

text \<open>Rewriting every domain's own \<open>selected\<close> flag, leaving the area flags alone.\<close>

definition set_selected_flags ::
  "(string \<Rightarrow> bool \<Rightarrow> bool) \<Rightarrow> selection_state \<Rightarrow> selection_state" where
  "set_selected_flags f selectionState =
     selectionState\<lparr>sel_domains :=
       map (\<lambda>(domId, dm). (domId, dm\<lparr>selected := f domId (selected dm)\<rparr>))
         (sel_domains selectionState)\<rparr>"

subsection \<open>buildDefaultSelection\<close>

text \<open>The inner loop \<open>for (const a of d.areas) state.domains[d.id].areas[a.id] = true\<close>.\<close>

fun buildDefaultSelection_areas :: "area list \<Rightarrow> dom_sel \<Rightarrow> dom_sel" where
  "buildDefaultSelection_areas [] dm = dm"
| "buildDefaultSelection_areas (a # rest) dm =
     buildDefaultSelection_areas rest
       (dm\<lparr>sel_areas := js_set_primitive (area_id a) True (sel_areas dm)\<rparr>)"

text \<open>
  The object \<open>state.domains\<close> while it is built: its own entries and, once an assignment
  to the key \<open>__proto__\<close> has replaced it, its prototype.
\<close>

record building =
  own_domains :: "dom_sel obj"
  replaced_proto :: "dom_sel option"

text \<open>
  The outer loop. \<open>state.domains[d.id]\<close> is assigned a fresh object, which the inner
  loop then fills through the same reference. For the id \<open>__proto__\<close> the assignment
  runs the inherited setter: the fresh object becomes the prototype of \<open>state.domains\<close>
  and no entry is added; the inner loop reads it back through the getter.
\<close>

fun buildDefaultSelection_loop :: "domain list \<Rightarrow> building \<Rightarrow> building" where
  "buildDefaultSelection_loop [] state = state"
| "buildDefaultSelection_loop (d # rest) state =
     (let filled = buildDefaultSelection_areas (areas d) \<lparr>selected = True, sel_areas = []\<rparr>
      in if domain_id d = ''__proto__'' \<and> map_of (own_domains state) (domain_id d) = None
         then buildDefaultSelection_loop rest (state\<lparr>replaced_proto := Some filled\<rparr>)
         else buildDefaultSelection_loop rest
                (state\<lparr>own_domains := AList.update (domain_id d) filled (own_domains state)\<rparr>))"

text \<open>
  The result is a selection state of the data model unless the prototype was replaced;
  then \<open>state.domains\<close> inherits \<open>selected\<close> and \<open>areas\<close> from the replacement.
\<close>

datatype built = Selection selection_state | Proto_replaced "dom_sel obj" dom_sel

definition buildDefaultSelection :: "config \<Rightarrow> built" where
  "buildDefaultSelection cfg =
     (let state = buildDefaultSelection_loop (domains cfg)
                    \<lparr>own_domains = [], replaced_proto = None\<rparr>
      in case replaced_proto state of
           None \<Rightarrow> Selection \<lparr>sel_domains = own_domains state\<rparr>
         | Some p \<Rightarrow> Proto_replaced (own_domains state) p)"

text \<open>No domain and no area of the configuration has the id \<open>__proto__\<close>.\<close>

definition no_proto_ids :: "config \<Rightarrow> bool" where
  "no_proto_ids cfg =
     list_all
       (\<lambda>d. domain_id d \<noteq> ''__proto__'' \<and> list_all (\<lambda>a. area_id a \<noteq> ''__proto__'') (areas d))
       (domains cfg)"

subsection \<open>validateSelection\<close>

text \<open>\<open>Object.values(dom.areas).filter(Boolean).length\<close>\<close>

definition areaCount_of :: "dom_sel \<Rightarrow> nat" where
  "areaCount_of dm = length (filter (\<lambda>b. b) (map snd (sel_areas dm)))"

text \<open>
  The \<open>for (const domId in selectionState.domains)\<close> loop. It writes \<open>dom.selected\<close> in
  place, so the model returns the entries as the loop leaves them, with the running
  \<open>total\<close> (here \<open>tot\<close>).
\<close>

fun validateSelection_loop :: "dom_sel obj \<Rightarrow> nat \<Rightarrow> dom_sel obj \<times> nat" where
  "validateSelection_loop [] tot = ([], tot)"
| "validateSelection_loop ((domId, dm) # rest) tot =
     (let areaCount = areaCount_of dm;
          dm' = (if selected dm \<and> areaCount = 0 then dm\<lparr>selected := False\<rparr> else dm);
          r = validateSelection_loop rest (tot + areaCount)
      in ((domId, dm') # fst r, snd r))"

text \<open>The result is the returned boolean and the selection state after the call.\<close>

definition validateSelection :: "selection_state \<Rightarrow> bool \<times> selection_state" where
  "validateSelection selectionState =
     (let r = validateSelection_loop (sel_domains selectionState) 0
      in (snd r > 0, selectionState\<lparr>sel_domains := fst r\<rparr>))"

text \<open>The number of area flags that are true, summed over the domains of a state.\<close>

definition total_true_flags :: "selection_state \<Rightarrow> nat" where
  "total_true_flags selectionState =
     sum_list (map (\<lambda>p. areaCount_of (snd p)) (sel_domains selectionState))"

text \<open>Some area flag of a domain entry is true.\<close>

definition some_area_true :: "dom_sel \<Rightarrow> bool" where
  "some_area_true dm = list_ex (\<lambda>p. snd p) (sel_areas dm)"

text \<open>
  What the loop body leaves of one entry: \<open>selected\<close> is cleared when it was set and no
  area flag is true, nothing else changes.
\<close>

definition repair :: "dom_sel \<Rightarrow> dom_sel" where
  "repair dm = (if selected dm \<and> areaCount_of dm = 0 then dm\<lparr>selected := False\<rparr> else dm)"

text \<open>A domain entry that is selected with every area flag it holds true.\<close>

definition all_selected :: "dom_sel \<Rightarrow> bool" where
  "all_selected dm = (selected dm \<and> list_all (\<lambda>p. snd p) (sel_areas dm))"

section \<open>Numbers and scoring\<close>

subsection \<open>JavaScript numbers: IEEE 754 binary64\<close>

text \<open>
  A finite double is the rational it denotes. An arithmetic operation of JavaScript
  returns the exact result rounded to the nearest double, ties to the even
  significand: 53 significant bits. \<open>binade q\<close> is the exponent \<open>e\<close> with
  \<open>2^e \<le> q < 2^(e+1)\<close>, so doubles around \<open>q\<close> are \<open>2^(e-52)\<close> apart. The model has
  neither subnormal numbers nor overflow: every number helpers.js computes from
  arrays (fewer than \<open>2^32\<close> elements) is zero or lies between \<open>2^-40\<close> and \<open>2^35\<close>.
\<close>

fun ilog2 :: "nat \<Rightarrow> nat" where
  "ilog2 n = (if n < 2 then 0 else Suc (ilog2 (n div 2)))"

declare ilog2.simps [simp del]

definition binade :: "rat \<Rightarrow> int" where
  "binade q =
     (if 1 \<le> q then int (ilog2 (nat \<lfloor>q\<rfloor>))
      else (let l = int (ilog2 (nat \<lfloor>1 / q\<rfloor>))
            in if 2 powi (- l) \<le> q then - l else - l - 1))"

definition round_half_even :: "rat \<Rightarrow> int" where
  "round_half_even y =
     (let f = \<lfloor>y\<rfloor>; r = y - of_int f
      in if r < 1 / 2 then f else if 1 / 2 < r then f + 1 else if even f then f else f + 1)"

text \<open>The double nearest to a rational.\<close>

definition fl :: "rat \<Rightarrow> rat" where
  "fl q =
     (if q = 0 then 0
      else (let ulp = 2 powi (binade \<bar>q\<bar> - 52)
            in sgn q * of_int (round_half_even (\<bar>q\<bar> / ulp)) * ulp))"

text \<open>\<open>x / y\<close>, \<open>x * y\<close> and \<open>x + y\<close> on doubles (\<open>y\<close> is never zero where helpers.js divides).\<close>

definition js_div :: "rat \<Rightarrow> rat \<Rightarrow> rat" where
  "js_div x y = fl (x / y)"

definition js_mul :: "rat \<Rightarrow> rat \<Rightarrow> rat" where
  "js_mul x y = fl (x * y)"

definition js_add :: "rat \<Rightarrow> rat \<Rightarrow> rat" where
  "js_add x y = fl (x + y)"

text \<open>
  \<open>x.toFixed(2)\<close>: the decimal string with two fraction digits, here the integer number
  of hundredths it reads. ECMAScript takes the integer \<open>n\<close> for which \<open>n / 100 - x\<close> is
  closest to zero, the larger \<open>n\<close> of two, on the exact value of the double \<open>x\<close>; a
  negative \<open>x\<close> is formatted as its absolute value with a sign.
\<close>

definition toFixed2 :: "rat \<Rightarrow> int" where
  "toFixed2 x = (if x < 0 then - \<lfloor>100 * (- x) + 1 / 2\<rfloor> else \<lfloor>100 * x + 1 / 2\<rfloor>)"

text \<open>Unary \<open>+\<close> on such a string: the double nearest to the decimal.\<close>

definition to_number :: "int \<Rightarrow> rat" where
  "to_number h = fl (of_int h / 100)"

subsection \<open>Answers\<close>

text \<open>An answer is \<open>true\<close> (yes), \<open>false\<close> (no) or \<open>null\<close> (unanswered).\<close>

datatype answer = ATrue | AFalse | ANull

text \<open>\<open>Boolean(v)\<close>, the predicate of \<open>filter(Boolean)\<close>.\<close>

fun truthy :: "answer \<Rightarrow> bool" where
  "truthy ATrue = True"
| "truthy AFalse = False"
| "truthy ANull = False"

subsection \<open>calculateAreaScore\<close>

definition calculateAreaScore :: "answer list \<Rightarrow> rat" where
  "calculateAreaScore areaAnswers =
     (let yesCount = length (filter truthy areaAnswers);
          total = (if length areaAnswers = 0 then 1 else length areaAnswers);
          normalized = max 0 (min 1 (js_div (of_nat yesCount) (of_nat total)))
      in to_number (toFixed2 (js_mul normalized 5)))"

subsection \<open>calculateDomainScore\<close>

text \<open>
  The value of \<open>arr\<close>, that is \<open>answersByArea[area.id] || []\<close>: the recorded array (an
  array, even an empty one, is truthy), the empty array when the key is found
  nowhere, or an inherited member of \<open>Object.prototype\<close>, which is truthy too.
\<close>

datatype arr_value = Array "answer list" | Builtin builtin

definition answers_or_empty :: "answer list obj \<Rightarrow> area \<Rightarrow> arr_value" where
  "answers_or_empty answersByArea a =
     (case js_get answersByArea (area_id a) of
        Own arr \<Rightarrow> Array arr
      | Inherited m \<Rightarrow> Builtin m
      | Missing \<Rightarrow> Array [])"

text \<open>\<open>arr.length === 0\<close>; \<open>Object.prototype\<close> has no \<open>length\<close>.\<close>

fun length_is_zero :: "arr_value \<Rightarrow> bool" where
  "length_is_zero (Array xs) = (length xs = 0)"
| "length_is_zero (Builtin (Fn n)) = (n = 0)"
| "length_is_zero (Builtin Proto_object) = False"

text \<open>\<open>calculateAreaScore(arr)\<close>: only an array has \<open>filter\<close>.\<close>

fun calculateAreaScore_of :: "arr_value \<Rightarrow> js_error + rat" where
  "calculateAreaScore_of (Array xs) = Inr (calculateAreaScore xs)"
| "calculateAreaScore_of (Builtin m) = Inl TypeError"

text \<open>\<open>area.questions?.length\<close> as a condition.\<close>

definition has_questions :: "area \<Rightarrow> bool" where
  "has_questions a = (case questions a of None \<Rightarrow> False | Some qs \<Rightarrow> length qs \<noteq> 0)"

text \<open>
  The \<open>for (const area of domainAreas)\<close> loop over \<open>sum\<close> and \<open>count\<close> (\<open>s\<close> and \<open>cnt\<close>);
  \<open>count\<close> only takes integer values, which doubles hold exactly.
\<close>

fun calculateDomainScore_loop ::
  "area list \<Rightarrow> answer list obj \<Rightarrow> rat \<Rightarrow> nat \<Rightarrow> js_error + rat \<times> nat" where
  "calculateDomainScore_loop [] answersByArea s cnt = Inr (s, cnt)"
| "calculateDomainScore_loop (a # rest) answersByArea s cnt =
     (let arr = answers_or_empty answersByArea a
      in if length_is_zero arr \<and> has_questions a
         then calculateDomainScore_loop rest answersByArea (js_add s 0) (cnt + 1)
         else (case calculateAreaScore_of arr of
                 Inl e \<Rightarrow> Inl e
               | Inr x \<Rightarrow> calculateDomainScore_loop rest answersByArea (js_add s x) (cnt + 1)))"

definition calculateDomainScore :: "area list \<Rightarrow> answer list obj \<Rightarrow> js_error + rat" where
  "calculateDomainScore domainAreas answersByArea =
     (if length domainAreas = 0 then Inr 0
      else (case calculateDomainScore_loop domainAreas answersByArea 0 0 of
              Inl e \<Rightarrow> Inl e
            | Inr r \<Rightarrow>
                Inr (if snd r \<noteq> 0
                     then to_number (toFixed2 (js_div (fst r) (of_nat (snd r))))
                     else 0)))"

subsection \<open>calculateOverallScore\<close>

fun calculateOverallScore_loop ::
  "domain list \<Rightarrow> answer list obj \<Rightarrow> rat \<Rightarrow> nat \<Rightarrow> js_error + rat \<times> nat" where
  "calculateOverallScore_loop [] answersByArea s cnt = Inr (s, cnt)"
| "calculateOverallScore_loop (d # rest) answersByArea s cnt =
     (case calculateDomainScore (areas d) answersByArea of
        Inl e \<Rightarrow> Inl e
      | Inr x \<Rightarrow> calculateOverallScore_loop rest answersByArea (js_add s x) (cnt + 1))"

definition calculateOverallScore :: "domain list \<Rightarrow> answer list obj \<Rightarrow> js_error + rat" where
  "calculateOverallScore selectedDomains answersByArea =
     (if length selectedDomains = 0 then Inr 0
      else (case calculateOverallScore_loop selectedDomains answersByArea 0 0 of
              Inl e \<Rightarrow> Inl e
            | Inr r \<Rightarrow>
                Inr (if snd r \<noteq> 0
                     then to_number (toFixed2 (js_div (fst r) (of_nat (snd r))))
                     else 0)))"

subsection \<open>Scores as decimals\<close>

text \<open>
  The answers recorded for an area as an own property of the answer map, none when
  there is no such property; and the term the area adds to \<open>sum\<close> when its id does not
  resolve to an inherited member: nothing recorded for an area that has questions
  counts as 0, anything else is the area score of what is recorded.
\<close>

definition recorded_answers :: "answer list obj \<Rightarrow> area \<Rightarrow> answer list" where
  "recorded_answers answersByArea a =
     (case map_of answersByArea (area_id a) of None \<Rightarrow> [] | Some arr \<Rightarrow> arr)"

definition area_term :: "answer list obj \<Rightarrow> area \<Rightarrow> rat" where
  "area_term answersByArea a =
     (if length (recorded_answers answersByArea a) = 0 \<and> has_questions a then 0
      else calculateAreaScore (recorded_answers answersByArea a))"

text \<open>The number a call returned, 0 standing in for a call that threw.\<close>

definition score_value :: "js_error + rat \<Rightarrow> rat" where
  "score_value r = (case r of Inl e \<Rightarrow> 0 | Inr x \<Rightarrow> x)"

text \<open>The two-decimal number a score prints as (create.js shows \<open>score.toFixed(2)\<close>).\<close>

definition decimal2 :: "rat \<Rightarrow> rat" where
  "decimal2 x = of_int (toFixed2 x) / 100"

text \<open>The sum the loops accumulate: doubles added from the left.\<close>

fun js_sum :: "rat list \<Rightarrow> rat \<Rightarrow> rat" where
  "js_sum [] s = s"
| "js_sum (t # ts) s = js_sum ts (js_add s t)"

text \<open>The unit roundoff of binary64.\<close>

definition eps :: rat where
  "eps = 1 / 2 ^ 53"

text \<open>
  Rounding to two decimals in the specification's words (section 4.4): half away from
  zero at the second decimal, on the exact value; and the area score it describes, with
  the count of entries equal to \<open>true\<close> over the length, or 1 for an empty sequence.
\<close>

definition spec_round2 :: "rat \<Rightarrow> rat" where
  "spec_round2 x = sgn x * of_int \<lfloor>100 * \<bar>x\<bar> + 1 / 2\<rfloor> / 100"

definition spec_area_score :: "answer list \<Rightarrow> rat" where
  "spec_area_score a =
     spec_round2 (5 * (of_nat (length (filter (\<lambda>v. v = ATrue) a)) / of_nat (max (length a) 1)))"

section \<open>Persistence (saveLocal, loadLocal)\<close>

text \<open>
  What the browser provides. \<open>localStorage\<close> maps keys to strings; \<open>setItem\<close> throws when
  the quota would be exceeded, and any access throws where storage is denied. The
  quota is counted in characters of keys and values.
\<close>

record local_storage =
  items :: "string obj"
  quota :: nat
  accessible :: bool

definition storage_size :: "string obj \<Rightarrow> nat" where
  "storage_size kvs = sum_list (map (\<lambda>p. length (fst p) + length (snd p)) kvs)"

definition setItem :: "local_storage \<Rightarrow> string \<Rightarrow> string \<Rightarrow> js_error + local_storage" where
  "setItem st key v =
     (if \<not> accessible st then Inl SecurityError
      else (let kvs = AList.update key v (items st)
            in if quota st < storage_size kvs then Inl QuotaExceededError
               else Inr (st\<lparr>items := kvs\<rparr>)))"

definition getItem :: "local_storage \<Rightarrow> string \<Rightarrow> js_error + string option" where
  "getItem st key = (if \<not> accessible st then Inl SecurityError else Inr (map_of (items st) key))"

text \<open>\<open>try { body } catch { handler }\<close> and the sequencing of calls that may throw.\<close>

definition try_catch :: "js_error + 'a \<Rightarrow> (js_error \<Rightarrow> js_error + 'a) \<Rightarrow> js_error + 'a" where
  "try_catch body handler = (case body of Inl e \<Rightarrow> handler e | Inr x \<Rightarrow> Inr x)"

definition and_then :: "js_error + 'a \<Rightarrow> ('a \<Rightarrow> js_error + 'b) \<Rightarrow> js_error + 'b" where
  "and_then m f = (case m of Inl e \<Rightarrow> Inl e | Inr x \<Rightarrow> f x)"

text \<open>
  \<open>JSON.stringify\<close> and \<open>JSON.parse\<close> are parameters: \<open>stringify\<close> throws a TypeError on a
  value it cannot serialise, \<open>parse\<close> a SyntaxError on a text that is not JSON.
  \<open>saveLocal\<close> returns the storage it leaves; an empty \<open>catch {}\<close> ends the call normally.
\<close>

definition saveLocal ::
  "('v \<Rightarrow> js_error + string) \<Rightarrow> local_storage \<Rightarrow> string \<Rightarrow> 'v \<Rightarrow> js_error + local_storage" where
  "saveLocal stringify st key v =
     try_catch (and_then (stringify v) (\<lambda>s. setItem st key s)) (\<lambda>e. Inr st)"

text \<open>\<open>v ? JSON.parse(v) : fallback\<close>: \<open>null\<close> (no such key) and the empty string are falsy.\<close>

definition loadLocal ::
  "(string \<Rightarrow> js_error + 'v) \<Rightarrow> local_storage \<Rightarrow> string \<Rightarrow> 'v \<Rightarrow> js_error + 'v" where
  "loadLocal parse st key fallback =
     try_catch
       (and_then (getItem st key)
          (\<lambda>v. case v of
                 None \<Rightarrow> Inr fallback
               | Some s \<Rightarrow> if s = [] then Inr fallback else parse s))
       (\<lambda>e. Inr fallback)"

text \<open>JSON restricted to the two boolean literals, for concrete runs.\<close>

definition stringify_bool :: "bool \<Rightarrow> js_error + string" where
  "stringify_bool b = Inr (if b then ''true'' else ''false'')"

definition parse_bool :: "string \<Rightarrow> js_error + bool" where
  "parse_bool s =
     (if s = ''true'' then Inr True else if s = ''false'' then Inr False else Inl SyntaxError)"

definition empty_storage :: local_storage where
  "empty_storage = \<lparr>items = [], quota = 5000000, accessible = True\<rparr>"

definition full_storage :: local_storage where
  "full_storage = \<lparr>items = [], quota = 0, accessible = True\<rparr>"

text \<open>The empty storage after \<open>true\<close> was saved under the selection key.\<close>

definition saved_storage :: local_storage where
  "saved_storage = \<lparr>items = [(''afs_selection'', ''true'')], quota = 5000000, accessible = True\<rparr>"

section \<open>Sample data\<close>

definition area_vision :: area where
  "area_vision = \<lparr>area_id = ''a1'', area_name = ''Vision'', questions = Some [''q1'', ''q2'']\<rparr>"

definition area_roadmap :: area where
  "area_roadmap = \<lparr>area_id = ''a2'', area_name = ''Roadmap'', questions = Some [''q1'']\<rparr>"

definition area_tooling :: area where
  "area_tooling =
     \<lparr>area_id = ''a3'', area_name = ''Tooling'', questions = Some [''q1'', ''q2'', ''q3'']\<rparr>"

definition domain_strategy :: domain where
  "domain_strategy =
     \<lparr>domain_id = ''d1'', domain_name = ''Strategy'', areas = [area_vision, area_roadmap]\<rparr>"

definition domain_engineering :: domain where
  "domain_engineering =
     \<lparr>domain_id = ''d2'', domain_name = ''Engineering'', areas = [area_tooling]\<rparr>"

definition sample_config :: config where
  "sample_config = \<lparr>domains = [domain_strategy, domain_engineering]\<rparr>"

text \<open>A state with an entry for the first domain only, one of its two areas checked.\<close>

definition partial_selection :: selection_state where
  "partial_selection =
     \<lparr>sel_domains = [(''d1'', \<lparr>selected = False, sel_areas = [(''a1'', True), (''a2'', False)]\<rparr>)]\<rparr>"

text \<open>
  A checked area under a domain that is not selected: the state an earlier version of
  the domain checkbox handler leaves when a domain is unchecked (it clears \<open>selected\<close>
  and keeps the area flags), and a state \<open>loadLocal\<close> may bring back.
\<close>

definition unchecked_domain_selection :: selection_state where
  "unchecked_domain_selection =
     \<lparr>sel_domains = [(''d1'', \<lparr>selected = False, sel_areas = [(''a1'', True)]\<rparr>)]\<rparr>"

text \<open>One domain with a checked area, one selected domain with none.\<close>

definition mixed_selection :: selection_state where
  "mixed_selection =
     \<lparr>sel_domains =
        [(''d1'', \<lparr>selected = True, sel_areas = [(''a1'', True), (''a2'', False)]\<rparr>),
         (''d2'', \<lparr>selected = True, sel_areas = [(''a3'', False)]\<rparr>)]\<rparr>"

definition nothing_selected :: selection_state where
  "nothing_selected =
     \<lparr>sel_domains = [(''d1'', \<lparr>selected = True, sel_areas = [(''a1'', False)]\<rparr>)]\<rparr>"

text \<open>
  Answers for the scoring examples of the specification: one area answered yes twice,
  one area with three questions and nothing recorded, one area answered yes once.
\<close>

definition sample_answers :: "answer list obj" where
  "sample_answers = [(''a1'', [ATrue, ATrue]), (''a2'', [ATrue])]"

definition scored_domain_one :: domain where
  "scored_domain_one =
     \<lparr>domain_id = ''d1'', domain_name = ''Strategy'', areas = [area_vision, area_tooling]\<rparr>"

definition scored_domain_two :: domain where
  "scored_domain_two =
     \<lparr>domain_id = ''d2'', domain_name = ''Engineering'', areas = [area_roadmap]\<rparr>"

text \<open>Answer sequences of 200 questions with three and with one yes.\<close>

definition three_of_200 :: "answer list" where
  "three_of_200 = replicate 3 ATrue @ replicate 197 AFalse"

definition one_of_200 :: "answer list" where
  "one_of_200 = replicate 1 ATrue @ replicate 199 AFalse"

text \<open>An area with one yes in three answers (score 1.67) and one with one yes in one (5).\<close>

definition area_security :: area where
  "area_security =
     \<lparr>area_id = ''a4'', area_name = ''Security'', questions = Some [''q1'', ''q2'', ''q3'']\<rparr>"

definition area_culture :: area where
  "area_culture = \<lparr>area_id = ''a5'', area_name = ''Culture'', questions = Some [''q1'']\<rparr>"

definition tie_answers :: "answer list obj" where
  "tie_answers = [(''a4'', [ATrue, AFalse, AFalse]), (''a5'', [ATrue])]"

definition tie_domain_one :: domain where
  "tie_domain_one = \<lparr>domain_id = ''d3'', domain_name = ''Risk'', areas = [area_security]\<rparr>"

definition tie_domain_two :: domain where
  "tie_domain_two = \<lparr>domain_id = ''d4'', domain_name = ''People'', areas = [area_culture]\<rparr>"

text \<open>
  Ids that name members of \<open>Object.prototype\<close>: an area \<open>constructor\<close> under a domain
  whose entry holds no flag, a domain \<open>constructor\<close> without an entry, an area and a
  domain \<open>__proto__\<close>.
\<close>

definition area_constructor :: area where
  "area_constructor =
     \<lparr>area_id = ''constructor'', area_name = ''Governance'', questions = Some [''q1'']\<rparr>"

definition domain_governance :: domain where
  "domain_governance =
     \<lparr>domain_id = ''d5'', domain_name = ''Governance'', areas = [area_constructor]\<rparr>"

definition governance_config :: config where
  "governance_config = \<lparr>domains = [domain_governance]\<rparr>"

definition governance_selection :: selection_state where
  "governance_selection = \<lparr>sel_domains = [(''d5'', \<lparr>selected = False, sel_areas = []\<rparr>)]\<rparr>"

definition domain_constructor :: domain where
  "domain_constructor =
     \<lparr>domain_id = ''constructor'', domain_name = ''Delivery'', areas = [area_vision]\<rparr>"

definition constructor_config :: config where
  "constructor_config = \<lparr>domains = [domain_constructor]\<rparr>"

definition empty_selection :: selection_state where
  "empty_selection = \<lparr>sel_domains = []\<rparr>"

definition area_proto :: area where
  "area_proto = \<lparr>area_id = ''__proto__'', area_name = ''Platform'', questions = Some [''q1'']\<rparr>"

definition domain_platform :: domain where
  "domain_platform = \<lparr>domain_id = ''d6'', domain_name = ''Platform'', areas = [area_proto]\<rparr>"

definition platform_config :: config where
  "platform_config = \<lparr>domains = [domain_platform]\<rparr>"

definition domain_proto :: domain where
  "domain_proto = \<lparr>domain_id = ''__proto__'', domain_name = ''Data'', areas = [area_vision]\<rparr>"

definition proto_config :: config where
  "proto_config = \<lparr>domains = [domain_proto]\<rparr>"

section \<open>Selection derivation\<close>

lemma js_get_resolved:
  "\<not> inherits ob k \<Longrightarrow>
   js_get ob k = (case map_of ob k of Some v \<Rightarrow> Own v | None \<Rightarrow> Missing)"
  by (auto simp: js_get_def inherits_def split: option.splits)

lemma area_checked_resolved:
  "\<not> inherits (sel_areas domSel) (area_id a) \<Longrightarrow>
   area_checked domSel a = (map_of (sel_areas domSel) (area_id a) = Some True)"
  by (auto simp: area_checked_def js_get_resolved split: option.splits)

lemma getSelectedDomains_loop_spec:
  assumes "list_all
      (\<lambda>d. \<not> inherits (sel_domains st) (domain_id d)
         \<and> (case map_of (sel_domains st) (domain_id d) of
              None \<Rightarrow> True
            | Some domSel \<Rightarrow> list_all (\<lambda>a. \<not> inherits (sel_areas domSel) (area_id a)) (areas d)))
      ds"
  shows "getSelectedDomains_loop ds st acc =
     Inr (acc @ filter (\<lambda>d. areas d \<noteq> [])
             (map (\<lambda>d. d\<lparr>areas := filter (area_flag st d) (areas d)\<rparr>) ds))"
  using assms
proof (induction ds arbitrary: acc)
  case Nil
  show ?case by simp
next
  case (Cons d ds)
  from Cons.prems have res: "\<not> inherits (sel_domains st) (domain_id d)" by simp
  from Cons.prems have IH: "getSelectedDomains_loop ds st acc' =
     Inr (acc' @ filter (\<lambda>d. areas d \<noteq> [])
             (map (\<lambda>d. d\<lparr>areas := filter (area_flag st d) (areas d)\<rparr>) ds))" for acc'
    by (intro Cons.IH) simp
  show ?case
  proof (cases "map_of (sel_domains st) (domain_id d)")
    case None
    then have "filter (area_flag st d) (areas d) = []"
      by (simp add: area_flag_def)
    with None IH show ?thesis by (simp add: js_get_resolved[OF res])
  next
    case (Some domSel)
    with Cons.prems have ar: "\<forall>a\<in>set (areas d). \<not> inherits (sel_areas domSel) (area_id a)"
      by (simp add: list_all_iff)
    have flag: "filter (area_checked domSel) (areas d) = filter (area_flag st d) (areas d)"
      using ar Some by (intro filter_cong) (simp_all add: area_flag_def area_checked_resolved)
    show ?thesis
      using Some IH by (simp add: js_get_resolved[OF res] flag Let_def)
  qed
qed

lemma getSelectedDomains_loop_entries:
  assumes "list_all (\<lambda>d. \<not> inherits (sel_domains st) (domain_id d)) ds"
  shows "\<exists>out. getSelectedDomains_loop ds st acc = Inr out
           \<and> (\<forall>x\<in>set out. x \<in> set acc \<or> map_of (sel_domains st) (domain_id x) \<noteq> None)"
  using assms
proof (induction ds arbitrary: acc)
  case Nil
  show ?case by simp
next
  case (Cons d ds)
  from Cons.prems have res: "\<not> inherits (sel_domains st) (domain_id d)"
    and rest: "list_all (\<lambda>d. \<not> inherits (sel_domains st) (domain_id d)) ds"
    by simp_all
  show ?case
  proof (cases "map_of (sel_domains st) (domain_id d)")
    case None
    with Cons.IH[OF rest, of acc] show ?thesis by (simp add: js_get_resolved[OF res])
  next
    case (Some domSel)
    show ?thesis
    proof (cases "filter (area_checked domSel) (areas d) = []")
      case True
      with Some Cons.IH[OF rest, of acc] show ?thesis
        by (simp add: js_get_resolved[OF res])
    next
      case False
      from Cons.IH[OF rest, of "acc @ [d\<lparr>areas := filter (area_checked domSel) (areas d)\<rparr>]"]
      obtain out where out:
        "getSelectedDomains_loop ds st (acc @ [d\<lparr>areas := filter (area_checked domSel) (areas d)\<rparr>])
           = Inr out"
        "\<forall>x\<in>set out. x \<in> set (acc @ [d\<lparr>areas := filter (area_checked domSel) (areas d)\<rparr>])
           \<or> map_of (sel_domains st) (domain_id x) \<noteq> None"
        by blast
      have "\<forall>x\<in>set out. x \<in> set acc \<or> map_of (sel_domains st) (domain_id x) \<noteq> None"
        using out(2) Some by auto
      with out(1) Some False show ?thesis
        by (simp add: js_get_resolved[OF res] Let_def)
    qed
  qed
qed

lemma js_get_set_selected:
  "js_get (map (\<lambda>(domId, dm). (domId, dm\<lparr>selected := f domId (selected dm)\<rparr>)) xs) k
   = (case js_get xs k of
        Own dm \<Rightarrow> Own (dm\<lparr>selected := f k (selected dm)\<rparr>)
      | Inherited m \<Rightarrow> Inherited m
      | Missing \<Rightarrow> Missing)"
proof -
  have "map_of (map (\<lambda>(domId, dm). (domId, dm\<lparr>selected := f domId (selected dm)\<rparr>)) xs) k
        = map_option (\<lambda>dm. dm\<lparr>selected := f k (selected dm)\<rparr>) (map_of xs k)"
    by (induction xs) auto
  then show ?thesis
    by (simp add: js_get_def split: option.splits)
qed

lemma area_checked_selected [simp]:
  "area_checked (dm\<lparr>selected := b\<rparr>) = area_checked dm"
  by (simp add: area_checked_def fun_eq_iff)

lemma getSelectedDomains_loop_set_selected:
  "getSelectedDomains_loop ds (set_selected_flags f st) acc = getSelectedDomains_loop ds st acc"
proof (induction ds arbitrary: acc)
  case Nil
  show ?case by simp
next
  case (Cons d ds)
  show ?case
    by (cases "js_get (sel_domains st) (domain_id d)")
       (simp_all add: set_selected_flags_def js_get_set_selected Let_def
          Cons.IH[unfolded set_selected_flags_def])
qed

lemma distinct_ids_filter_map:
  assumes "distinct (map domain_id ds)"
  shows "distinct (map domain_id (filter P (map (\<lambda>d. d\<lparr>areas := g d\<rparr>) ds)))"
proof -
  have "map domain_id (map (\<lambda>d. d\<lparr>areas := g d\<rparr>) ds) = map domain_id ds"
    by (simp add: comp_def)
  with assms have "distinct (map domain_id (map (\<lambda>d. d\<lparr>areas := g d\<rparr>) ds))"
    by metis
  then show ?thesis
    by (rule distinct_map_filter)
qed

text \<open>
  C3, as the code has it. When no id lookup resolves to an inherited member of
  \<open>Object.prototype\<close> (every domain id has an entry in the selection state or names no
  such member, and so every area id in its domain's \<open>areas\<close> object),
  \<open>getSelectedDomains\<close> returns the configuration's domains in their order, each with
  its areas replaced by those of its areas, in their order, whose per-area flag is
  true, and without the domains left with no area; with domain ids unique in the
  configuration, as the data model has them, no id occurs twice in the result. The
  domains' own \<open>selected\<close> flags play no part: rewriting them in any way gives the same
  outcome. The function writes to neither argument (the result holds fresh domain
  objects and fresh area arrays), so it is a pure function of both.
\<close>

theorem getSelectedDomains_spec:
  "(domain_ids_resolve cfg st \<and> area_ids_resolve cfg st \<longrightarrow>
      getSelectedDomains cfg st = Inr (spec_selected_domains cfg st)
      \<and> (distinct (map domain_id (domains cfg)) \<longrightarrow>
            distinct (map domain_id (spec_selected_domains cfg st))))
   \<and> getSelectedDomains cfg (set_selected_flags f st) = getSelectedDomains cfg st"
proof -
  have eq: "getSelectedDomains cfg st = Inr (spec_selected_domains cfg st)"
    if "domain_ids_resolve cfg st" "area_ids_resolve cfg st"
    using that
    by (simp add: getSelectedDomains_def spec_selected_domains_def domain_ids_resolve_def
          area_ids_resolve_def getSelectedDomains_loop_spec list_all_iff)
  have indep: "getSelectedDomains cfg (set_selected_flags f st) = getSelectedDomains cfg st"
    by (simp add: getSelectedDomains_def getSelectedDomains_loop_set_selected)
  have dist: "distinct (map domain_id (domains cfg)) \<longrightarrow>
              distinct (map domain_id (spec_selected_domains cfg st))"
    unfolding spec_selected_domains_def by (auto intro: distinct_ids_filter_map)
  show ?thesis using eq indep dist by blast
qed

theorem getSelectedDomains_spec_witness:
  "domain_ids_resolve sample_config partial_selection
   \<and> area_ids_resolve sample_config partial_selection
   \<and> distinct (map domain_id (domains sample_config))
   \<and> distinct (map domain_id (spec_selected_domains sample_config partial_selection))
   \<and> getSelectedDomains sample_config partial_selection =
       Inr [domain_strategy\<lparr>areas := [area_vision]\<rparr>]"
proof -
  have r: "domain_ids_resolve sample_config partial_selection"
    "area_ids_resolve sample_config partial_selection"
    by (simp_all add: domain_ids_resolve_def area_ids_resolve_def inherits_def
          object_prototype_def sample_config_def partial_selection_def
          domain_strategy_def domain_engineering_def
          area_vision_def area_roadmap_def area_tooling_def)
  have d: "distinct (map domain_id (domains sample_config))"
    by (simp add: sample_config_def domain_strategy_def domain_engineering_def)
  have "spec_selected_domains sample_config partial_selection =
          [domain_strategy\<lparr>areas := [area_vision]\<rparr>]"
    by (simp add: spec_selected_domains_def sample_config_def partial_selection_def
          domain_strategy_def domain_engineering_def area_flag_def
          area_vision_def area_roadmap_def area_tooling_def)
  with r d getSelectedDomains_spec [of sample_config partial_selection "\<lambda>_ b. b"]
  show ?thesis by simp
qed

text \<open>
  C3 as stated fails for an id that names a member of \<open>Object.prototype\<close>: the area
  \<open>constructor\<close> has no flag in its domain's entry, yet \<open>domSel.areas['constructor']\<close>
  reads the inherited function, which is truthy, and the area is kept.
\<close>

theorem getSelectedDomains_inherited_counterexample:
  "map_of (sel_domains governance_selection) ''d5'' = Some \<lparr>selected = False, sel_areas = []\<rparr>
   \<and> spec_selected_domains governance_config governance_selection = []
   \<and> getSelectedDomains governance_config governance_selection = Inr [domain_governance]"
  by (simp add: getSelectedDomains_def spec_selected_domains_def governance_config_def
        governance_selection_def domain_governance_def area_constructor_def area_flag_def
        area_checked_def js_get_def object_prototype_def)

text \<open>
  C10, as the code has it. When no domain id of the configuration resolves to an
  inherited member of \<open>Object.prototype\<close>, \<open>getSelectedDomains\<close> returns, and a domain of
  the configuration for which the selection state's \<open>domains\<close> object has no entry
  does not occur in the result, whatever areas the configuration lists for it.
\<close>

theorem getSelectedDomains_no_entry:
  assumes "d \<in> set (domains cfg)" and "map_of (sel_domains st) (domain_id d) = None"
    and "domain_ids_resolve cfg st"
  shows "\<exists>ds. getSelectedDomains cfg st = Inr ds \<and> domain_id d \<notin> domain_id ` set ds"
proof -
  from assms(3) have "list_all (\<lambda>d. \<not> inherits (sel_domains st) (domain_id d)) (domains cfg)"
    by (simp add: domain_ids_resolve_def)
  from getSelectedDomains_loop_entries[OF this, of "[]"] obtain ds where
    ds: "getSelectedDomains cfg st = Inr ds"
        "\<forall>x\<in>set ds. map_of (sel_domains st) (domain_id x) \<noteq> None"
    by (auto simp: getSelectedDomains_def)
  from ds(2) assms(2) have "domain_id d \<notin> domain_id ` set ds" by force
  with ds(1) show ?thesis by blast
qed

theorem getSelectedDomains_no_entry_witness:
  "domain_engineering \<in> set (domains sample_config)
   \<and> areas domain_engineering \<noteq> []
   \<and> map_of (sel_domains partial_selection) (domain_id domain_engineering) = None
   \<and> domain_ids_resolve sample_config partial_selection
   \<and> getSelectedDomains sample_config partial_selection =
       Inr [domain_strategy\<lparr>areas := [area_vision]\<rparr>]
   \<and> (\<exists>ds. getSelectedDomains sample_config partial_selection = Inr ds
          \<and> domain_id domain_engineering \<notin> domain_id ` set ds)"
proof -
  have a: "domain_engineering \<in> set (domains sample_config)"
    by (simp add: sample_config_def)
  have b: "map_of (sel_domains partial_selection) (domain_id domain_engineering) = None"
    by (simp add: partial_selection_def domain_engineering_def)
  have c: "areas domain_engineering \<noteq> []"
    by (simp add: domain_engineering_def)
  have r: "domain_ids_resolve sample_config partial_selection"
    by (simp add: domain_ids_resolve_def inherits_def object_prototype_def sample_config_def
          partial_selection_def domain_strategy_def domain_engineering_def)
  have e: "getSelectedDomains sample_config partial_selection =
       Inr [domain_strategy\<lparr>areas := [area_vision]\<rparr>]"
    by (simp add: getSelectedDomains_def sample_config_def partial_selection_def
          domain_strategy_def domain_engineering_def area_checked_def js_get_def
          object_prototype_def area_vision_def area_roadmap_def area_tooling_def)
  from a b c r e getSelectedDomains_no_entry [OF a b r] show ?thesis by simp
qed

text \<open>
  C10 as stated fails for a domain id that names a member of \<open>Object.prototype\<close>: the
  domain \<open>constructor\<close> has no entry, \<open>selectionState.domains['constructor']\<close> reads the
  inherited function, the loop does not \<open>continue\<close>, and the call throws a TypeError
  instead of omitting the domain.
\<close>

theorem getSelectedDomains_no_entry_counterexample:
  "domain_constructor \<in> set (domains constructor_config)
   \<and> map_of (sel_domains empty_selection) (domain_id domain_constructor) = None
   \<and> getSelectedDomains constructor_config empty_selection = Inl TypeError"
  by (simp add: getSelectedDomains_def constructor_config_def empty_selection_def
        domain_constructor_def area_vision_def js_get_def object_prototype_def)

section \<open>Selection validation and repair\<close>

lemma areaCount_of_repair: "areaCount_of (repair dm) = areaCount_of dm"
  by (simp add: repair_def areaCount_of_def)

lemma repair_idem: "repair (repair dm) = repair dm"
  by (simp add: repair_def areaCount_of_def)

lemma validateSelection_loop_fst:
  "fst (validateSelection_loop ds t) = map (\<lambda>p. (fst p, repair (snd p))) ds"
  by (induction ds t rule: validateSelection_loop.induct) (simp_all add: Let_def repair_def)

lemma validateSelection_loop_snd:
  "snd (validateSelection_loop ds t) = t + sum_list (map (\<lambda>p. areaCount_of (snd p)) ds)"
  by (induction ds t rule: validateSelection_loop.induct) (simp_all add: Let_def)

lemma validateSelection_eq:
  "validateSelection st =
     (0 < total_true_flags st,
      st\<lparr>sel_domains := map (\<lambda>p. (fst p, repair (snd p))) (sel_domains st)\<rparr>)"
  by (simp add: validateSelection_def Let_def validateSelection_loop_fst
        validateSelection_loop_snd total_true_flags_def)

lemma areaCount_pos_iff: "0 < areaCount_of dm \<longleftrightarrow> some_area_true dm"
  by (auto simp: areaCount_of_def some_area_true_def list_ex_iff filter_empty_conv)

text \<open>
  C6. \<open>validateSelection\<close> returns true exactly when the number of true area flags,
  summed over all domains of the state, is greater than zero. The function has no
  failing branch: an empty selection is reported through the boolean alone.
\<close>

theorem validateSelection_true_iff:
  "fst (validateSelection st) \<longleftrightarrow> 0 < total_true_flags st"
  by (simp add: validateSelection_eq)

theorem validateSelection_true_iff_witness:
  "fst (validateSelection mixed_selection) \<and> 0 < total_true_flags mixed_selection
   \<and> \<not> fst (validateSelection nothing_selected) \<and> total_true_flags nothing_selected = 0"
proof -
  have "total_true_flags mixed_selection = 1" and "total_true_flags nothing_selected = 0"
    by (simp_all add: total_true_flags_def mixed_selection_def nothing_selected_def
          areaCount_of_def)
  with validateSelection_true_iff [of mixed_selection]
       validateSelection_true_iff [of nothing_selected]
  show ?thesis by simp
qed

text \<open>
  C7. \<open>validateSelection\<close> is idempotent: run again on the state the first run left, it
  returns the same boolean and leaves that state as it is.
\<close>

theorem validateSelection_idempotent:
  "validateSelection (snd (validateSelection st)) = validateSelection st"
  by (simp add: validateSelection_eq total_true_flags_def comp_def areaCount_of_repair repair_idem)

text \<open>
  C2, as the code has it. After \<open>validateSelection\<close>, a domain whose \<open>selected\<close> flag is
  true has at least one true area flag. The converse is not restored: the loop only
  ever clears \<open>selected\<close>, so a domain with a checked area and \<open>selected\<close> false stays so.
\<close>

theorem validateSelection_selected_imp:
  "list_all (\<lambda>p. selected (snd p) \<longrightarrow> some_area_true (snd p))
     (sel_domains (snd (validateSelection st)))"
  by (auto simp: validateSelection_eq list_all_iff repair_def areaCount_pos_iff[symmetric])

theorem validateSelection_selected_imp_witness:
  "snd (validateSelection mixed_selection) =
     \<lparr>sel_domains =
        [(''d1'', \<lparr>selected = True, sel_areas = [(''a1'', True), (''a2'', False)]\<rparr>),
         (''d2'', \<lparr>selected = False, sel_areas = [(''a3'', False)]\<rparr>)]\<rparr>
   \<and> list_all (\<lambda>p. selected (snd p) \<longrightarrow> some_area_true (snd p))
         (sel_domains (snd (validateSelection mixed_selection)))"
  using validateSelection_selected_imp [of mixed_selection]
  by (simp add: validateSelection_def mixed_selection_def areaCount_of_def)

text \<open>
  C2 as stated fails: on the state with \<open>selected\<close> false and a checked area,
  \<open>validateSelection\<close> returns true and leaves the state as it is, so the domain has a
  true area flag and is not selected.
\<close>

theorem validateSelection_iff_counterexample:
  "validateSelection unchecked_domain_selection = (True, unchecked_domain_selection)
   \<and> \<not> list_all (\<lambda>p. selected (snd p) \<longleftrightarrow> some_area_true (snd p))
          (sel_domains (snd (validateSelection unchecked_domain_selection)))"
  by (simp add: validateSelection_def unchecked_domain_selection_def areaCount_of_def
        some_area_true_def)

section \<open>Default selection\<close>

lemma js_set_primitive_update:
  "k \<noteq> ''__proto__'' \<Longrightarrow> js_set_primitive k v ob = AList.update k v ob"
  by (simp add: js_set_primitive_def)

lemma list_all_update:
  "list_all P al \<Longrightarrow> P (k, v) \<Longrightarrow> list_all P (AList.update k v al)"
  by (induction al) auto

lemma list_all_js_set_primitive:
  "list_all P al \<Longrightarrow> P (k, v) \<Longrightarrow> list_all P (js_set_primitive k v al)"
  by (simp add: js_set_primitive_def list_all_update)

lemma build_areas_selected: "selected (buildDefaultSelection_areas as dm) = selected dm"
  by (induction as arbitrary: dm) simp_all

lemma build_areas_all_true:
  "list_all (\<lambda>p. snd p) (sel_areas dm) \<Longrightarrow>
   list_all (\<lambda>p. snd p) (sel_areas (buildDefaultSelection_areas as dm))"
  by (induction as arbitrary: dm) (simp_all add: list_all_js_set_primitive)

lemma build_areas_lookup:
  "''__proto__'' \<notin> area_id ` set as \<Longrightarrow>
   map_of (sel_areas (buildDefaultSelection_areas as dm)) k =
     (if k \<in> area_id ` set as then Some True else map_of (sel_areas dm) k)"
  by (induction as arbitrary: dm) (auto simp: js_set_primitive_update update_conv')

lemma build_areas_all_selected:
  "all_selected (buildDefaultSelection_areas as \<lparr>selected = True, sel_areas = []\<rparr>)"
  by (simp add: all_selected_def build_areas_selected build_areas_all_true)

lemma build_areas_count:
  assumes "as \<noteq> []" and "''__proto__'' \<notin> area_id ` set as"
  shows "0 < areaCount_of (buildDefaultSelection_areas as dm)"
proof -
  from assms(1) obtain a where "a \<in> set as" by (cases as) auto
  then have "map_of (sel_areas (buildDefaultSelection_areas as dm)) (area_id a) = Some True"
    using assms(2) by (simp add: build_areas_lookup)
  then have "(area_id a, True) \<in> set (sel_areas (buildDefaultSelection_areas as dm))"
    by (rule map_of_SomeD)
  then show ?thesis
    by (force simp: areaCount_of_def filter_empty_conv)
qed

lemma build_loop_proto:
  "''__proto__'' \<notin> domain_id ` set ds \<Longrightarrow>
   replaced_proto (buildDefaultSelection_loop ds st) = replaced_proto st"
  by (induction ds arbitrary: st) (auto simp: Let_def)

lemma build_loop_all_selected:
  "list_all (\<lambda>p. all_selected (snd p)) (own_domains st) \<Longrightarrow>
   list_all (\<lambda>p. all_selected (snd p)) (own_domains (buildDefaultSelection_loop ds st))"
  by (induction ds arbitrary: st)
     (simp_all add: Let_def list_all_update build_areas_all_selected)

lemma build_loop_other:
  "k \<notin> domain_id ` set ds \<Longrightarrow> ''__proto__'' \<notin> domain_id ` set ds \<Longrightarrow>
   map_of (own_domains (buildDefaultSelection_loop ds st)) k = map_of (own_domains st) k"
  by (induction ds arbitrary: st) (auto simp: Let_def update_conv')

lemma build_loop_lookup:
  "distinct (map domain_id ds) \<Longrightarrow> ''__proto__'' \<notin> domain_id ` set ds \<Longrightarrow> d \<in> set ds \<Longrightarrow>
   map_of (own_domains (buildDefaultSelection_loop ds st)) (domain_id d) =
     Some (buildDefaultSelection_areas (areas d) \<lparr>selected = True, sel_areas = []\<rparr>)"
proof (induction ds arbitrary: st)
  case Nil
  then show ?case by simp
next
  case (Cons x ds)
  from Cons.prems(2) have xp: "domain_id x \<noteq> ''__proto__''"
    and rp: "''__proto__'' \<notin> domain_id ` set ds" by auto
  show ?case
  proof (cases "d \<in> set ds")
    case True
    with Cons.prems(1) rp xp show ?thesis by (simp add: Cons.IH Let_def)
  next
    case False
    with Cons.prems have dx: "d = x" and "domain_id x \<notin> domain_id ` set ds" by auto
    then show ?thesis using xp rp by (simp add: build_loop_other update_conv' Let_def)
  qed
qed

lemma total_true_flags_pos:
  assumes "map_of (sel_domains st) k = Some dm" and "0 < areaCount_of dm"
  shows "0 < total_true_flags st"
proof -
  from assms(1) have "(k, dm) \<in> set (sel_domains st)" by (rule map_of_SomeD)
  then have "areaCount_of dm \<in> set (map (\<lambda>p. areaCount_of (snd p)) (sel_domains st))"
    by force
  then have "areaCount_of dm \<le> total_true_flags st"
    unfolding total_true_flags_def by (simp add: member_le_sum_list)
  with assms(2) show ?thesis by simp
qed

text \<open>
  C8, as the code has it. For a configuration with unique domain ids, no domain or
  area id \<open>__proto__\<close>, and some domain that has an area, \<open>buildDefaultSelection\<close> gives a
  selection state in which every entry is selected with all its area flags true,
  every domain of the configuration has its entry with a true flag for each of its
  areas, and \<open>validateSelection\<close> on that state returns true.
\<close>

theorem buildDefaultSelection_valid:
  assumes "distinct (map domain_id (domains cfg))" and "no_proto_ids cfg"
    and "d \<in> set (domains cfg)" and "areas d \<noteq> []"
  shows "\<exists>st. buildDefaultSelection cfg = Selection st
    \<and> list_all (\<lambda>p. all_selected (snd p)) (sel_domains st)
    \<and> (\<forall>d' \<in> set (domains cfg). \<exists>dm.
          map_of (sel_domains st) (domain_id d') = Some dm
          \<and> selected dm
          \<and> (\<forall>a \<in> set (areas d'). map_of (sel_areas dm) (area_id a) = Some True))
    \<and> fst (validateSelection st)"
proof -
  define b where
    "b = buildDefaultSelection_loop (domains cfg) \<lparr>own_domains = [], replaced_proto = None\<rparr>"
  define st where "st = \<lparr>sel_domains = own_domains b\<rparr>"
  from assms(2) have dp: "''__proto__'' \<notin> domain_id ` set (domains cfg)"
    and ap: "\<forall>d'\<in>set (domains cfg). ''__proto__'' \<notin> area_id ` set (areas d')"
    by (fastforce simp: no_proto_ids_def list_all_iff)+
  have "replaced_proto b = None"
    unfolding b_def using dp by (simp add: build_loop_proto)
  then have built: "buildDefaultSelection cfg = Selection st"
    by (simp add: buildDefaultSelection_def b_def[symmetric] st_def)
  have lk: "map_of (sel_domains st) (domain_id d') =
      Some (buildDefaultSelection_areas (areas d') \<lparr>selected = True, sel_areas = []\<rparr>)"
    if "d' \<in> set (domains cfg)" for d'
    using assms(1) dp that by (simp add: st_def b_def build_loop_lookup)
  have all: "list_all (\<lambda>p. all_selected (snd p)) (sel_domains st)"
    by (simp add: st_def b_def build_loop_all_selected)
  have each: "\<forall>d' \<in> set (domains cfg). \<exists>dm.
          map_of (sel_domains st) (domain_id d') = Some dm
          \<and> selected dm
          \<and> (\<forall>a \<in> set (areas d'). map_of (sel_areas dm) (area_id a) = Some True)"
    using ap by (simp add: lk build_areas_selected build_areas_lookup)
  have "0 < areaCount_of (buildDefaultSelection_areas (areas d) \<lparr>selected = True, sel_areas = []\<rparr>)"
    using assms(3,4) ap by (intro build_areas_count) simp_all
  with lk[OF assms(3)] have "0 < total_true_flags st"
    by (rule total_true_flags_pos)
  then have "fst (validateSelection st)"
    by (simp add: validateSelection_eq)
  with built all each show ?thesis by blast
qed

theorem buildDefaultSelection_valid_witness:
  "distinct (map domain_id (domains sample_config)) \<and> no_proto_ids sample_config
   \<and> domain_strategy \<in> set (domains sample_config) \<and> areas domain_strategy \<noteq> []
   \<and> (\<exists>st. buildDefaultSelection sample_config = Selection st
          \<and> list_all (\<lambda>p. all_selected (snd p)) (sel_domains st)
          \<and> fst (validateSelection st))"
proof -
  have a: "distinct (map domain_id (domains sample_config))"
    by (simp add: sample_config_def domain_strategy_def domain_engineering_def)
  have p: "no_proto_ids sample_config"
    by (simp add: no_proto_ids_def sample_config_def domain_strategy_def domain_engineering_def
          area_vision_def area_roadmap_def area_tooling_def)
  have b: "domain_strategy \<in> set (domains sample_config)"
    by (simp add: sample_config_def)
  have c: "areas domain_strategy \<noteq> []"
    by (simp add: domain_strategy_def)
  from buildDefaultSelection_valid [OF a p b c]
  have "\<exists>st. buildDefaultSelection sample_config = Selection st
          \<and> list_all (\<lambda>p. all_selected (snd p)) (sel_domains st)
          \<and> fst (validateSelection st)"
    by blast
  with a p b c show ?thesis by simp
qed

text \<open>
  C8 as stated fails for the id \<open>__proto__\<close>. A configuration whose only area has that
  id: \<open>areas['__proto__'] = true\<close> stores nothing, the default selection has no true
  flag and \<open>validateSelection\<close> returns false (and clears \<open>selected\<close>). A configuration
  whose only domain has that id: the assignment replaces the prototype of
  \<open>state.domains\<close>, which gets no entry.
\<close>

theorem buildDefaultSelection_proto_counterexample:
  "distinct (map domain_id (domains platform_config))
   \<and> domain_platform \<in> set (domains platform_config) \<and> areas domain_platform \<noteq> []
   \<and> buildDefaultSelection platform_config =
       Selection \<lparr>sel_domains = [(''d6'', \<lparr>selected = True, sel_areas = []\<rparr>)]\<rparr>
   \<and> validateSelection \<lparr>sel_domains = [(''d6'', \<lparr>selected = True, sel_areas = []\<rparr>)]\<rparr> =
       (False, \<lparr>sel_domains = [(''d6'', \<lparr>selected = False, sel_areas = []\<rparr>)]\<rparr>)
   \<and> buildDefaultSelection proto_config =
       Proto_replaced [] \<lparr>selected = True, sel_areas = [(''a1'', True)]\<rparr>"
  by (simp add: buildDefaultSelection_def platform_config_def domain_platform_def
        area_proto_def proto_config_def domain_proto_def area_vision_def
        js_set_primitive_def validateSelection_def areaCount_of_def)

section \<open>Rounding to the nearest double\<close>

lemma ilog2_0 [simp]: "ilog2 0 = 0" by (simp add: ilog2.simps)
lemma ilog2_1 [simp]: "ilog2 (Suc 0) = 0" by (simp add: ilog2.simps)
lemma ilog2_One [simp]: "ilog2 1 = 0" by (subst ilog2.simps) simp
lemma ilog2_Bit0 [simp]: "ilog2 (numeral (Num.Bit0 k)) = Suc (ilog2 (numeral k))"
  by (subst ilog2.simps) (simp add: numeral_Bit0_div_2)
lemma ilog2_Bit1 [simp]: "ilog2 (numeral (Num.Bit1 k)) = Suc (ilog2 (numeral k))"
  by (subst ilog2.simps) (simp add: numeral_Bit1_div_2)

lemma floor_rat_divide_numeral [simp]:
  "\<lfloor>numeral a / numeral b :: rat\<rfloor> = numeral a div numeral b"
  by (metis floor_divide_of_int_eq of_int_numeral)

lemma floor_rat_one_divide_numeral [simp]:
  "\<lfloor>1 / numeral b :: rat\<rfloor> = 1 div numeral b"
  by (metis floor_divide_of_int_eq of_int_1 of_int_numeral)

lemma ilog2_bounds: "0 < n \<Longrightarrow> 2 ^ ilog2 n \<le> n \<and> n < 2 ^ Suc (ilog2 n)"
proof (induction n rule: ilog2.induct)
  case (1 n)
  show ?case
  proof (cases "n < 2")
    case True
    with "1.prems" have "n = 1" by simp
    then show ?thesis by simp
  next
    case False
    then have pos: "0 < n div 2" by simp
    from "1.IH"[OF False pos]
    have lo: "2 ^ ilog2 (n div 2) \<le> n div 2" and hi: "n div 2 < 2 ^ Suc (ilog2 (n div 2))"
      by simp_all
    have eq: "ilog2 n = Suc (ilog2 (n div 2))"
      using False by (subst ilog2.simps) simp
    from lo have "2 * 2 ^ ilog2 (n div 2) \<le> n" by linarith
    moreover from hi have "n < 2 * 2 ^ Suc (ilog2 (n div 2))" by linarith
    ultimately show ?thesis by (simp add: eq)
  qed
qed

lemma floor_ilog2_bounds:
  assumes "1 \<le> (q::rat)"
  shows "2 ^ ilog2 (nat \<lfloor>q\<rfloor>) \<le> q" and "q < 2 ^ Suc (ilog2 (nat \<lfloor>q\<rfloor>))"
proof -
  let ?n = "nat \<lfloor>q\<rfloor>"
  from assms have fl1: "1 \<le> \<lfloor>q\<rfloor>" by simp
  then have npos: "0 < ?n" by simp
  note b = ilog2_bounds[OF npos]
  have "(2::rat) ^ ilog2 ?n = of_nat (2 ^ ilog2 ?n)" by simp
  also have "\<dots> \<le> of_nat ?n" using b by (simp only: of_nat_le_iff)
  also have "\<dots> = of_int \<lfloor>q\<rfloor>" using fl1 by simp
  also have "\<dots> \<le> q" by simp
  finally show "2 ^ ilog2 ?n \<le> q" .
  from b have "?n + 1 \<le> 2 ^ Suc (ilog2 ?n)" by simp
  then have "(of_nat (?n + 1) :: rat) \<le> of_nat (2 ^ Suc (ilog2 ?n))"
    by (simp only: of_nat_le_iff)
  then have "of_int \<lfloor>q\<rfloor> + 1 \<le> (2::rat) ^ Suc (ilog2 ?n)"
    using fl1 by simp
  moreover have "q < of_int \<lfloor>q\<rfloor> + 1" by linarith
  ultimately show "q < 2 ^ Suc (ilog2 ?n)" by linarith
qed

lemma powi_neg_nat: "(2::rat) powi (- int l) = 1 / 2 ^ l"
  by (simp add: power_int_minus inverse_eq_divide)

lemma powi_neg_nat_pred: "(2::rat) powi (- int l - 1) = 1 / 2 ^ Suc l"
proof -
  have "- int l - 1 = - int (Suc l)" by simp
  then show ?thesis by (simp only: powi_neg_nat)
qed

lemma powi_neg_nat_succ: "(2::rat) powi (1 - int l) = 2 / 2 ^ l"
  by (simp add: power_int_diff)

lemma binade_bounds:
  assumes "0 < q"
  shows "2 powi (binade q) \<le> q" and "q < 2 powi (binade q + 1)"
proof -
  have "2 powi (binade q) \<le> q \<and> q < 2 powi (binade q + 1)"
  proof (cases "1 \<le> q")
    case True
    have "int (ilog2 (nat \<lfloor>q\<rfloor>)) + 1 = int (Suc (ilog2 (nat \<lfloor>q\<rfloor>)))" by simp
    then have "(2::rat) powi (int (ilog2 (nat \<lfloor>q\<rfloor>)) + 1) = 2 ^ Suc (ilog2 (nat \<lfloor>q\<rfloor>))"
      by (simp only: power_int_of_nat)
    with floor_ilog2_bounds[OF True] True show ?thesis
      by (simp add: binade_def)
  next
    case False
    define l where "l = ilog2 (nat \<lfloor>1 / q\<rfloor>)"
    from False assms have "1 \<le> 1 / q" by simp
    from floor_ilog2_bounds[OF this]
    have lo: "2 ^ l \<le> 1 / q" and hi: "1 / q < 2 ^ Suc l" by (simp_all add: l_def)
    from lo assms have qle: "q \<le> 1 / 2 ^ l"
      by (simp add: field_simps)
    from hi assms have qgt: "1 / 2 ^ Suc l < q"
      by (simp add: field_simps)
    show ?thesis
    proof (cases "2 powi (- int l) \<le> q")
      case True
      then have b: "binade q = - int l" using False by (simp add: binade_def Let_def l_def)
      have "q < 2 / 2 ^ l"
      proof -
        have "(1::rat) / 2 ^ l < 2 / 2 ^ l" by (simp add: divide_strict_right_mono)
        with qle show ?thesis by linarith
      qed
      with True show ?thesis by (simp add: b powi_neg_nat_succ)
    next
      case F2: False
      then have b: "binade q = - int l - 1" using False by (simp add: binade_def Let_def l_def)
      have "binade q + 1 = - int l" by (simp add: b)
      with F2 qgt show ?thesis by (simp add: b powi_neg_nat_pred)
    qed
  qed
  then show "2 powi (binade q) \<le> q" and "q < 2 powi (binade q + 1)" by simp_all
qed

lemma round_half_even_err: "\<bar>of_int (round_half_even y) - y\<bar> \<le> 1 / 2"
  unfolding round_half_even_def Let_def
  by (auto simp: abs_if) linarith+

lemma round_half_even_le:
  assumes "y \<le> of_int N"
  shows "round_half_even y \<le> N"
proof (cases "y = of_int N")
  case True
  then show ?thesis by (simp add: round_half_even_def)
next
  case False
  with assms have "y < of_int N" by simp
  then have "\<lfloor>y\<rfloor> < N" by (simp add: floor_less_iff)
  then show ?thesis
    by (simp add: round_half_even_def Let_def)
qed

lemma round_half_even_nonneg: "0 \<le> y \<Longrightarrow> 0 \<le> round_half_even y"
  by (simp add: round_half_even_def Let_def)

lemma fl_nonneg_eq:
  assumes "0 < q"
  shows "fl q = of_int (round_half_even (q / 2 powi (binade q - 52))) * 2 powi (binade q - 52)"
  using assms by (simp add: fl_def Let_def)

lemma fl_err:
  assumes "0 \<le> q"
  shows "\<bar>fl q - q\<bar> \<le> q / 2 ^ 53"
proof (cases "q = 0")
  case True
  then show ?thesis by (simp add: fl_def)
next
  case False
  with assms have pos: "0 < q" by simp
  define ulp :: rat where "ulp = 2 powi (binade q - 52)"
  have ulp_pos: "0 < ulp" by (simp add: ulp_def zero_less_power_int)
  have ulp_eq: "ulp = 2 powi (binade q) / 2 ^ 52"
    by (simp add: ulp_def power_int_diff)
  with binade_bounds(1)[OF pos] have ulp_le: "ulp \<le> q / 2 ^ 52"
    by (simp add: divide_right_mono)
  have "fl q - q = (of_int (round_half_even (q / ulp)) - q / ulp) * ulp"
    using ulp_pos by (simp add: fl_nonneg_eq[OF pos] ulp_def[symmetric] algebra_simps)
  then have "\<bar>fl q - q\<bar> = \<bar>of_int (round_half_even (q / ulp)) - q / ulp\<bar> * ulp"
    using ulp_pos by (simp add: abs_mult)
  also have "\<dots> \<le> (1 / 2) * ulp"
    using round_half_even_err ulp_pos by (intro mult_right_mono) simp_all
  also have "\<dots> \<le> (1 / 2) * (q / 2 ^ 52)"
    using ulp_le by simp
  also have "\<dots> = q / 2 ^ 53" by simp
  finally show ?thesis .
qed

lemma fl_nonneg: "0 \<le> q \<Longrightarrow> 0 \<le> fl q"
proof -
  assume a: "0 \<le> q"
  from fl_err[OF a] have "q - q / 2 ^ 53 \<le> fl q" by linarith
  moreover have "q / 2 ^ 53 \<le> q" using a by (simp add: field_simps)
  ultimately show ?thesis using a by linarith
qed

lemma fl_le_5:
  assumes "0 \<le> q" and "q \<le> 5"
  shows "fl q \<le> 5"
proof (cases "q = 0")
  case True
  then show ?thesis by (simp add: fl_def)
next
  case False
  with assms have pos: "0 < q" by simp
  have "(2::rat) powi (binade q) < 2 powi 3"
    using binade_bounds(1)[OF pos] assms(2) by simp
  then have e3: "binade q < 3"
    by (rule power_int_le_imp_less_exp[rotated]) simp_all
  define k where "k = nat (52 - binade q)"
  have ek: "binade q - 52 = - int k" using e3 by (simp add: k_def)
  have ulp: "(2::rat) powi (binade q - 52) = 1 / 2 ^ k"
    by (simp only: ek powi_neg_nat)
  have "q / (1 / 2 ^ k) \<le> of_int (5 * 2 ^ k)"
    using assms(2) by simp
  then have "round_half_even (q / (1 / 2 ^ k)) \<le> 5 * 2 ^ k"
    by (rule round_half_even_le)
  then have "(of_int (round_half_even (q / (1 / 2 ^ k))) :: rat) \<le> of_int (5 * 2 ^ k)"
    by (simp only: of_int_le_iff)
  then have "of_int (round_half_even (q / (1 / 2 ^ k))) * (1 / 2 ^ k) \<le> (5::rat)"
    by (simp add: field_simps)
  then show ?thesis
    by (simp only: fl_nonneg_eq[OF pos] ulp)
qed

lemma nearest_of_close:
  fixes y :: rat and a :: int and c :: nat
  assumes c: "0 < c" and close: "\<bar>y - of_int a / of_nat c\<bar> < 1 / (2 * of_nat c)"
  shows "\<bar>rat_of_int \<lfloor>y + 1 / 2\<rfloor> - of_int a / of_nat c\<bar> \<le> 1 / 2"
proof -
  define h where "h = \<lfloor>y + 1 / 2\<rfloor>"
  define C :: rat where "C = of_nat c"
  have cpos: "0 < C" using c by (simp add: C_def)
  have h1: "of_int h \<le> y + 1 / 2" and h2: "y + 1 / 2 < of_int h + 1"
    unfolding h_def by linarith+
  have "\<bar>y - of_int a / C\<bar> * (2 * C) < 1 / (2 * C) * (2 * C)"
    using close cpos unfolding C_def[symmetric] by (intro mult_strict_right_mono) simp_all
  then have "\<bar>y - of_int a / C\<bar> * \<bar>2 * C\<bar> < 1"
    using cpos by simp
  then have "\<bar>(y - of_int a / C) * (2 * C)\<bar> < 1"
    by (simp only: abs_mult)
  moreover have "(y - of_int a / C) * (2 * C) = 2 * C * y - 2 * of_int a"
    using cpos by (simp add: field_simps)
  ultimately have cl: "\<bar>2 * C * y - 2 * of_int a\<bar> < 1"
    by simp
  have "2 * C * of_int h \<le> 2 * C * (y + 1 / 2)"
    using h1 cpos by (intro mult_left_mono) simp_all
  then have m1: "2 * C * of_int h \<le> 2 * C * y + C"
    by (simp add: algebra_simps)
  have "2 * C * (y + 1 / 2) < 2 * C * (of_int h + 1)"
    using h2 cpos by (intro mult_strict_left_mono) simp_all
  then have m2: "2 * C * y + C < 2 * C * of_int h + 2 * C"
    by (simp add: algebra_simps)
  from m1 cl have "2 * C * of_int h < 2 * of_int a + C + 1"
    by linarith
  then have "(of_int (2 * int c * h) :: rat) < of_int (2 * a + int c + 1)"
    by (simp add: C_def)
  then have i1: "2 * int c * h < 2 * a + int c + 1" by (simp only: of_int_less_iff)
  from m2 cl have "2 * of_int a + C - 1 < 2 * C * of_int h + 2 * C"
    by linarith
  then have "(of_int (2 * a + int c - 1) :: rat) < of_int (2 * int c * h + 2 * int c)"
    by (simp add: C_def)
  then have i2: "2 * a + int c - 1 < 2 * int c * h + 2 * int c" by (simp only: of_int_less_iff)
  have d: "of_int h - of_int a / C = of_int (2 * int c * h - 2 * a) / (2 * C)"
    using cpos by (simp add: C_def field_simps)
  have e: "of_int (int c) / (2 * C) = (1 / 2 :: rat)"
    using cpos by (simp add: C_def)
  have e': "of_int (- int c) / (2 * C) = (- (1 / 2) :: rat)"
    using cpos by (simp add: C_def)
  from i1 have "2 * int c * h - 2 * a \<le> int c" by linarith
  then have "(of_int (2 * int c * h - 2 * a) :: rat) \<le> of_int (int c)" by (simp only: of_int_le_iff)
  then have "of_int (2 * int c * h - 2 * a) / (2 * C) \<le> of_int (int c) / (2 * C)"
    using cpos by (intro divide_right_mono) simp_all
  then have u: "of_int h - of_int a / C \<le> 1 / 2"
    by (simp only: d e)
  from i2 have "- int c \<le> 2 * int c * h - 2 * a" by linarith
  then have "(of_int (- int c) :: rat) \<le> of_int (2 * int c * h - 2 * a)" by (simp only: of_int_le_iff)
  then have "of_int (- int c) / (2 * C) \<le> of_int (2 * int c * h - 2 * a) / (2 * C)"
    using cpos by (intro divide_right_mono) simp_all
  then have l: "- (1 / 2) \<le> of_int h - of_int a / C"
    by (simp only: d e')
  from u l show ?thesis unfolding h_def[symmetric] C_def by linarith
qed

section \<open>Area score\<close>

lemma fl_0 [simp]: "fl 0 = 0"
  by (simp add: fl_def)

lemma eps_pos: "0 < eps"
  by (simp add: eps_def)

lemma eps_small: "eps < 1 / 9000000000000000"
  by (simp add: eps_def)

lemma fl_err_le:
  assumes "0 \<le> q" and "q \<le> b"
  shows "\<bar>fl q - q\<bar> \<le> b * eps"
proof -
  have "q / 2 ^ 53 \<le> b / 2 ^ 53" using assms(2) by (simp add: divide_right_mono)
  with fl_err[OF assms(1)] show ?thesis unfolding eps_def by simp
qed

lemma toFixed2_nonneg: "0 \<le> x \<Longrightarrow> toFixed2 x = \<lfloor>100 * x + 1 / 2\<rfloor>"
  by (simp add: toFixed2_def)

lemma to_number_range:
  assumes "0 \<le> h" and "h \<le> 500"
  shows "0 \<le> to_number h" and "to_number h \<le> 5"
proof -
  have a: "(0::rat) \<le> of_int h / 100" using assms(1) by simp
  have "(of_int h :: rat) \<le> of_int 500" using assms(2) by (simp only: of_int_le_iff)
  then have b: "(of_int h :: rat) / 100 \<le> 5" by simp
  show "0 \<le> to_number h" unfolding to_number_def using a by (rule fl_nonneg)
  show "to_number h \<le> 5" unfolding to_number_def using a b by (rule fl_le_5)
qed

lemma to_number_err:
  assumes "0 \<le> h" and "h \<le> 500"
  shows "\<bar>to_number h - of_int h / 100\<bar> \<le> 5 * eps"
proof -
  have a: "(0::rat) \<le> of_int h / 100" using assms(1) by simp
  have "(of_int h :: rat) \<le> of_int 500" using assms(2) by (simp only: of_int_le_iff)
  then have b: "(of_int h :: rat) / 100 \<le> 5" by simp
  show ?thesis unfolding to_number_def using a b by (rule fl_err_le)
qed

lemma toFixed2_to_number:
  assumes "0 \<le> h" and "h \<le> 500"
  shows "toFixed2 (to_number h) = h"
proof -
  note e = to_number_err[OF assms]
  have nn: "0 \<le> to_number h" using assms by (rule to_number_range)
  have "of_int h \<le> 100 * to_number h + 1 / 2" using e eps_small by linarith
  moreover have "100 * to_number h + 1 / 2 < of_int h + 1" using e eps_small by linarith
  ultimately have "\<lfloor>100 * to_number h + 1 / 2\<rfloor> = h"
    by (simp add: floor_unique)
  then show ?thesis using nn by (simp add: toFixed2_nonneg)
qed

lemma area_score_hundredths:
  assumes len: "length a < 2 ^ 32"
  shows "\<exists>h. calculateAreaScore a = to_number h \<and> 0 \<le> h \<and> h \<le> 500
           \<and> \<bar>rat_of_int h / 100
                - 5 * of_nat (length (filter truthy a)) / of_nat (max (length a) 1)\<bar> \<le> 1 / 200"
proof -
  define k where "k = length (filter truthy a)"
  define n where "n = max (length a) 1"
  have n_alt: "(if length a = 0 then 1 else length a) = n"
    by (cases a) (simp_all add: n_def)
  have npos: "0 < n" by (simp add: n_def)
  have "k \<le> length a" unfolding k_def by (rule length_filter_le)
  then have kn: "k \<le> n" by (simp add: n_def)
  have nlt: "n < 2 ^ 32" using len by (simp add: n_def max_def)
  define r :: rat where "r = of_nat k / of_nat n"
  have r0: "0 \<le> r" by (simp add: r_def)
  have r1: "r \<le> 1" using kn npos by (simp add: r_def)
  define x1 where "x1 = fl r"
  have e1: "\<bar>x1 - r\<bar> \<le> 1 * eps"
    unfolding x1_def using r0 r1 by (rule fl_err_le)
  define nm where "nm = max 0 (min 1 x1)"
  have nm0: "0 \<le> nm" and nm1: "nm \<le> 1" by (simp_all add: nm_def)
  have enm: "\<bar>nm - r\<bar> \<le> eps"
    using e1 r0 r1 unfolding nm_def max_def min_def by (simp split: if_splits) linarith+
  define x2 where "x2 = fl (nm * 5)"
  have x2nn: "0 \<le> x2" unfolding x2_def using nm0 by (intro fl_nonneg) simp
  have e2: "\<bar>x2 - nm * 5\<bar> \<le> 5 * eps"
    unfolding x2_def using nm0 nm1 by (intro fl_err_le) simp_all
  have e3: "\<bar>100 * x2 - 500 * r\<bar> \<le> 1000 * eps"
    using e2 enm by linarith
  define h where "h = \<lfloor>100 * x2 + 1 / 2\<rfloor>"
  have "calculateAreaScore a =
          to_number (toFixed2 (fl (max 0 (min 1 (fl (of_nat k / of_nat n))) * 5)))"
    by (simp only: calculateAreaScore_def Let_def js_div_def js_mul_def n_alt k_def)
  also have "\<dots> = to_number (toFixed2 x2)"
    by (simp only: x2_def nm_def x1_def r_def)
  also have "\<dots> = to_number h"
    by (simp only: toFixed2_nonneg[OF x2nn] h_def)
  finally have score: "calculateAreaScore a = to_number h" .
  have hundred: "500 * r = of_int (500 * int k) / of_nat n"
    by (simp add: r_def)
  have "1000 * eps < 1 / (2 * of_nat n)"
  proof -
    have "(of_nat n :: rat) < of_nat (2 ^ 32)" using nlt by (simp only: of_nat_less_iff)
    then have "2 * of_nat n * (1000::rat) < 2 ^ 53" by simp
    then show ?thesis using npos by (simp add: eps_def field_simps)
  qed
  with e3 have "\<bar>100 * x2 - 500 * r\<bar> < 1 / (2 * of_nat n)"
    by linarith
  then have "\<bar>100 * x2 - of_int (500 * int k) / of_nat n\<bar> < 1 / (2 * of_nat n)"
    by (simp only: hundred)
  from nearest_of_close[OF npos this]
  have near: "\<bar>of_int h - 500 * r\<bar> \<le> 1 / 2"
    by (simp only: h_def hundred)
  have h0: "0 \<le> h" unfolding h_def using x2nn by simp
  have "of_int h \<le> 500 * r + 1 / 2" using near by linarith
  also have "\<dots> \<le> 500 + 1 / 2" using r1 by simp
  finally have "(of_int h :: rat) < of_int 501" by simp
  then have "h < 501" by (simp only: of_int_less_iff)
  then have h500: "h \<le> 500" by simp
  have "\<bar>of_int h / 100 - 5 * r\<bar> \<le> 1 / 200"
    using near by linarith
  then have "\<bar>rat_of_int h / 100
               - 5 * of_nat (length (filter truthy a)) / of_nat (max (length a) 1)\<bar> \<le> 1 / 200"
    by (simp only: r_def k_def n_def times_divide_eq_right)
  with score h0 h500 show ?thesis by blast
qed

lemma calculateAreaScore_Nil: "calculateAreaScore [] = 0"
  by (simp add: calculateAreaScore_def js_div_def js_mul_def toFixed2_def to_number_def)

lemma truthy_iff: "truthy v \<longleftrightarrow> v = ATrue"
  by (cases v) simp_all

lemma filter_truthy: "filter truthy a = filter (\<lambda>v. v = ATrue) a"
  by (simp add: truthy_iff cong: filter_cong)

text \<open>
  C1, as the code has it. For an answer sequence (an array: fewer than \<open>2^32\<close> entries)
  the area score lies in [0, 5] and is the double of a two-decimal number within 0.005
  of \<open>5 * (number of entries equal to true) / max(n, 1)\<close>: that value rounded to two
  decimals whenever it does not end in an exact 5 at the third decimal, and one of its
  two neighbours when it does. The empty sequence scores 0.
\<close>

theorem calculateAreaScore_nearest:
  assumes "length a < 2 ^ 32"
  shows "0 \<le> calculateAreaScore a \<and> calculateAreaScore a \<le> 5
    \<and> (\<exists>h. calculateAreaScore a = to_number h
           \<and> \<bar>rat_of_int h / 100
                - 5 * of_nat (length (filter (\<lambda>v. v = ATrue) a)) / of_nat (max (length a) 1)\<bar>
               \<le> 1 / 200)
    \<and> calculateAreaScore [] = 0"
proof -
  from area_score_hundredths[OF assms] obtain h where
    h: "calculateAreaScore a = to_number h" "0 \<le> h" "h \<le> 500"
       "\<bar>rat_of_int h / 100
          - 5 * of_nat (length (filter truthy a)) / of_nat (max (length a) 1)\<bar> \<le> 1 / 200"
    by blast
  from to_number_range[OF h(2,3)] h(1)
  have "0 \<le> calculateAreaScore a" "calculateAreaScore a \<le> 5" by simp_all
  moreover from h(1,4) have "\<exists>h. calculateAreaScore a = to_number h
           \<and> \<bar>rat_of_int h / 100
                - 5 * of_nat (length (filter (\<lambda>v. v = ATrue) a)) / of_nat (max (length a) 1)\<bar>
               \<le> 1 / 200"
    unfolding filter_truthy by blast
  ultimately show ?thesis using calculateAreaScore_Nil by simp
qed

lemmas num_eval = js_div_def js_mul_def js_add_def toFixed2_def
  to_number_def fl_def binade_def round_half_even_def Let_def power_int_minus

theorem calculateAreaScore_nearest_witness:
  "length [ATrue, AFalse] < (2::nat) ^ 32
   \<and> calculateAreaScore [ATrue, AFalse] = 5 / 2
   \<and> calculateAreaScore [ATrue] = 5
   \<and> calculateAreaScore [AFalse, AFalse] = 0
   \<and> calculateAreaScore [ANull, ATrue, AFalse] = to_number 167
   \<and> 0 \<le> calculateAreaScore [ATrue, AFalse] \<and> calculateAreaScore [ATrue, AFalse] \<le> 5"
proof -
  have "calculateAreaScore [ATrue, AFalse] = 5 / 2" "calculateAreaScore [ATrue] = 5"
    "calculateAreaScore [AFalse, AFalse] = 0"
    "calculateAreaScore [ANull, ATrue, AFalse] = to_number 167"
    by (simp_all add: calculateAreaScore_def) (simp_all add: num_eval)
  with calculateAreaScore_nearest [of "[ATrue, AFalse]"] show ?thesis by simp
qed

text \<open>
  C1 as stated fails at exact ties. Three yes in 200 answers: \<open>5 * 3 / 200 = 0.075\<close>,
  which rounds to 0.08 (half away from zero, half up and half even agree), but the
  double of \<open>3 / 200 * 5\<close> lies below 0.075 and \<open>toFixed(2)\<close> prints 0.07. One yes in 200
  answers: \<open>5 * 1 / 200 = 0.025\<close> and the code returns 0.03, so the ties do not go down
  throughout either.
\<close>

theorem calculateAreaScore_tie_counterexample:
  "calculateAreaScore three_of_200 = to_number 7
   \<and> spec_area_score three_of_200 = 8 / 100
   \<and> to_number 7 < 8 / 100 - 9 / 1000
   \<and> calculateAreaScore one_of_200 = to_number 3
   \<and> 5 * (1 / 200) = (25 / 1000 :: rat)"
  by (simp add: three_of_200_def one_of_200_def calculateAreaScore_def spec_area_score_def
        spec_round2_def)
     (simp add: num_eval)

section \<open>Sums and means of scores\<close>

lemma fl_err_eps: "0 \<le> q \<Longrightarrow> \<bar>fl q - q\<bar> \<le> q * eps"
  using fl_err[of q] by (simp add: eps_def)

lemma fl_upper:
  assumes "0 \<le> q"
  shows "fl q \<le> q * (1 + eps)"
proof -
  have "q * (1 + eps) = q + q * eps" by (simp add: algebra_simps)
  with fl_err_eps[OF assms] show ?thesis by linarith
qed

lemma fl_lower:
  assumes "0 \<le> q"
  shows "q * (1 - eps) \<le> fl q"
proof -
  have "q * (1 - eps) = q - q * eps" by (simp add: algebra_simps)
  with fl_err_eps[OF assms] show ?thesis by linarith
qed

lemma eps_le_1: "eps \<le> 1"
  by (simp add: eps_def)

lemma one_plus_eps_le_power: "1 \<le> p \<Longrightarrow> 1 + eps \<le> (1 + eps) ^ p"
  using eps_pos by (intro self_le_power) simp_all

lemma one_minus_eps_power_le: "1 \<le> p \<Longrightarrow> (1 - eps) ^ p \<le> 1 - eps"
proof -
  assume "1 \<le> p"
  then obtain p' where p: "p = Suc p'" by (cases p) auto
  have "(1 - eps) ^ p' \<le> 1"
    using eps_pos eps_le_1 by (intro power_le_one) simp_all
  then have "(1 - eps) * (1 - eps) ^ p' \<le> (1 - eps) * 1"
    using eps_le_1 by (intro mult_left_mono) simp_all
  then show ?thesis by (simp add: p)
qed

lemma to_number_upper:
  assumes "0 \<le> h"
  shows "to_number h \<le> of_int h / 100 * (1 + eps)"
  unfolding to_number_def using assms by (intro fl_upper) simp

lemma to_number_lower:
  assumes "0 \<le> h"
  shows "of_int h / 100 * (1 - eps) \<le> to_number h"
  unfolding to_number_def using assms by (intro fl_lower) simp

lemma to_number_nonneg: "0 \<le> h \<Longrightarrow> 0 \<le> to_number h"
  unfolding to_number_def by (intro fl_nonneg) simp

lemma js_sum_nonneg:
  "\<forall>h\<in>set hs. 0 \<le> h \<Longrightarrow> 0 \<le> S \<Longrightarrow> 0 \<le> js_sum (map to_number hs) S"
proof (induction hs arbitrary: S)
  case Nil
  then show ?case by simp
next
  case (Cons h hs)
  have "0 \<le> fl (S + to_number h)"
    using Cons.prems to_number_nonneg[of h] by (intro fl_nonneg) simp
  with Cons show ?case by (simp add: js_add_def)
qed

lemma js_sum_upper:
  assumes "\<forall>h\<in>set hs. 0 \<le> h" and "0 \<le> X" and "0 \<le> S"
    and "S \<le> X * (1 + eps) ^ p" and "1 \<le> p"
  shows "js_sum (map to_number hs) S
         \<le> (X + of_int (sum_list hs) / 100) * (1 + eps) ^ (p + length hs)"
  using assms
proof (induction hs arbitrary: S X p)
  case Nil
  then show ?case by simp
next
  case (Cons h hs)
  define t where "t = to_number h"
  define d :: rat where "d = of_int h / 100"
  have h0: "0 \<le> h" using Cons.prems(1) by simp
  have d0: "0 \<le> d" using h0 by (simp add: d_def)
  have t0: "0 \<le> t" unfolding t_def using h0 by (rule to_number_nonneg)
  have A0: "0 \<le> 1 + eps" using eps_pos by simp
  have "t \<le> d * (1 + eps)" unfolding t_def d_def using h0 by (rule to_number_upper)
  also have "\<dots> \<le> d * (1 + eps) ^ p"
    using d0 one_plus_eps_le_power[OF Cons.prems(5)] by (intro mult_left_mono)
  finally have tle: "t \<le> d * (1 + eps) ^ p" .
  have "fl (S + t) \<le> (S + t) * (1 + eps)"
    using Cons.prems(3) t0 by (intro fl_upper) simp
  also have "\<dots> \<le> (X * (1 + eps) ^ p + d * (1 + eps) ^ p) * (1 + eps)"
    using Cons.prems(4) tle A0 by (intro mult_right_mono add_mono)
  also have "\<dots> = (X + d) * (1 + eps) ^ (Suc p)"
    by (simp add: algebra_simps)
  finally have S1: "fl (S + t) \<le> (X + d) * (1 + eps) ^ (Suc p)" .
  have S1nn: "0 \<le> fl (S + t)"
    using Cons.prems(3) t0 by (intro fl_nonneg) simp
  have "js_sum (map to_number hs) (fl (S + t))
        \<le> (X + d + of_int (sum_list hs) / 100) * (1 + eps) ^ (Suc p + length hs)"
    using Cons.prems(1,2) d0 S1nn S1 by (intro Cons.IH) simp_all
  then show ?case
    by (simp add: js_add_def t_def d_def add_divide_distrib algebra_simps)
qed

lemma js_sum_lower:
  assumes "\<forall>h\<in>set hs. 0 \<le> h" and "0 \<le> X" and "0 \<le> S"
    and "X * (1 - eps) ^ p \<le> S" and "1 \<le> p"
  shows "(X + of_int (sum_list hs) / 100) * (1 - eps) ^ (p + length hs)
         \<le> js_sum (map to_number hs) S"
  using assms
proof (induction hs arbitrary: S X p)
  case Nil
  then show ?case by simp
next
  case (Cons h hs)
  define t where "t = to_number h"
  define d :: rat where "d = of_int h / 100"
  have h0: "0 \<le> h" using Cons.prems(1) by simp
  have d0: "0 \<le> d" using h0 by (simp add: d_def)
  have t0: "0 \<le> t" unfolding t_def using h0 by (rule to_number_nonneg)
  have B0: "0 \<le> 1 - eps" using eps_le_1 by simp
  have "d * (1 - eps) ^ p \<le> d * (1 - eps)"
    using d0 one_minus_eps_power_le[OF Cons.prems(5)] by (intro mult_left_mono)
  also have "\<dots> \<le> t" unfolding t_def d_def using h0 by (rule to_number_lower)
  finally have tge: "d * (1 - eps) ^ p \<le> t" .
  have "(X + d) * (1 - eps) ^ (Suc p) = (X * (1 - eps) ^ p + d * (1 - eps) ^ p) * (1 - eps)"
    by (simp add: algebra_simps)
  also have "\<dots> \<le> (S + t) * (1 - eps)"
    using Cons.prems(4) tge B0 by (intro mult_right_mono add_mono)
  also have "\<dots> \<le> fl (S + t)"
    using Cons.prems(3) t0 by (intro fl_lower) simp
  finally have S1: "(X + d) * (1 - eps) ^ (Suc p) \<le> fl (S + t)" .
  have S1nn: "0 \<le> fl (S + t)"
    using Cons.prems(3) t0 by (intro fl_nonneg) simp
  have "(X + d + of_int (sum_list hs) / 100) * (1 - eps) ^ (Suc p + length hs)
        \<le> js_sum (map to_number hs) (fl (S + t))"
    using Cons.prems(1,2) d0 S1nn S1 by (intro Cons.IH) simp_all
  then show ?case
    by (simp add: js_add_def t_def d_def add_divide_distrib algebra_simps)
qed

lemma one_plus_eps_power_le: "2 * of_nat m * eps \<le> 1 \<Longrightarrow> (1 + eps) ^ m \<le> 1 + 2 * of_nat m * eps"
proof (induction m)
  case 0
  then show ?case by simp
next
  case (Suc m)
  have s: "2 * of_nat m * eps \<le> 1" using Suc.prems eps_pos by (simp add: algebra_simps) 
  have "2 * of_nat m * eps * eps \<le> 1 * eps"
    using s eps_pos by (intro mult_right_mono) simp_all
  then have q: "2 * of_nat m * eps * eps \<le> eps" by simp
  have "(1 + eps) ^ Suc m = (1 + eps) ^ m * (1 + eps)" by simp
  also have "\<dots> \<le> (1 + 2 * of_nat m * eps) * (1 + eps)"
    using Suc.IH[OF s] eps_pos by (intro mult_right_mono) simp_all
  also have "\<dots> = 1 + 2 * of_nat m * eps + eps + 2 * of_nat m * eps * eps"
    by (simp add: algebra_simps)
  also have "\<dots> \<le> 1 + 2 * of_nat (Suc m) * eps"
    using q by (simp add: algebra_simps)
  finally show ?case .
qed

lemma one_minus_eps_power_ge: "1 - of_nat m * eps \<le> (1 - eps) ^ m"
proof (induction m)
  case 0
  then show ?case by simp
next
  case (Suc m)
  have B0: "0 \<le> 1 - eps" using eps_le_1 by simp
  have "1 - of_nat (Suc m) * eps \<le> (1 - of_nat m * eps) * (1 - eps)"
    using eps_pos by (simp add: algebra_simps)
  also have "\<dots> \<le> (1 - eps) ^ m * (1 - eps)"
    using Suc.IH B0 by (intro mult_right_mono)
  finally show ?case by (simp add: mult.commute)
qed

lemma sum_list_le_500:
  "\<forall>h\<in>set hs. h \<le> (500::int) \<Longrightarrow> sum_list hs \<le> 500 * int (length hs)"
  by (induction hs) auto

lemma js_mean_nearest:
  assumes ne: "hs \<noteq> []" and len: "length hs \<le> 1000000"
    and rng: "\<forall>h\<in>set hs. 0 \<le> h \<and> h \<le> 500"
  shows "\<exists>h. toFixed2 (js_div (js_sum (map to_number hs) 0) (of_nat (length hs))) = h
            \<and> 0 \<le> h \<and> h \<le> 500
            \<and> \<bar>rat_of_int h - of_int (sum_list hs) / of_nat (length hs)\<bar> \<le> 1 / 2"
proof -
  define c where "c = length hs"
  define C :: rat where "C = of_nat c"
  define T where "T = sum_list hs"
  define D :: rat where "D = of_int T / 100"
  define M where "M = D / C"
  define S where "S = js_sum (map to_number hs) 0"
  define Q where "Q = fl (S / C)"
  define m where "m = c + 2"
  have cpos: "0 < c" using ne by (simp add: c_def)
  have Cpos: "0 < C" using cpos by (simp add: C_def)
  have nn: "\<forall>h\<in>set hs. 0 \<le> h" using rng by simp
  have T0: "0 \<le> T" unfolding T_def using nn by (intro sum_list_nonneg) simp
  have T500: "T \<le> 500 * int c" unfolding T_def c_def using rng by (intro sum_list_le_500) simp
  have D0: "0 \<le> D" using T0 by (simp add: D_def)
  have M0: "0 \<le> M" using D0 Cpos by (simp add: M_def)
  have "(of_int T :: rat) \<le> of_int (500 * int c)" using T500 by (simp only: of_int_le_iff)
  then have "D \<le> 5 * C" by (simp add: D_def C_def)
  then have "D / C \<le> 5 * C / C" using Cpos by (intro divide_right_mono) simp_all
  then have M5: "M \<le> 5" using Cpos by (simp add: M_def)
  have S0: "0 \<le> S" unfolding S_def using nn by (intro js_sum_nonneg) simp_all
  have A0: "0 \<le> 1 + eps" using eps_pos by simp
  have B0: "0 \<le> 1 - eps" using eps_le_1 by simp
  have "S \<le> (0 + of_int (sum_list hs) / 100) * (1 + eps) ^ (1 + length hs)"
    unfolding S_def using nn by (intro js_sum_upper) simp_all
  then have Su: "S \<le> D * (1 + eps) ^ Suc c" by (simp add: D_def T_def c_def)
  have "(0 + of_int (sum_list hs) / 100) * (1 - eps) ^ (1 + length hs) \<le> S"
    unfolding S_def using nn by (intro js_sum_lower) simp_all
  then have Sl: "D * (1 - eps) ^ Suc c \<le> S" by (simp add: D_def T_def c_def)
  have SC0: "0 \<le> S / C" using S0 Cpos by simp
  have "Q \<le> S / C * (1 + eps)" unfolding Q_def using SC0 by (rule fl_upper)
  also have "\<dots> \<le> D * (1 + eps) ^ Suc c / C * (1 + eps)"
    using Su Cpos A0 by (intro mult_right_mono divide_right_mono) simp_all
  also have "\<dots> = M * (1 + eps) ^ m"
    by (simp add: M_def m_def)
  finally have Qu: "Q \<le> M * (1 + eps) ^ m" .
  have "M * (1 - eps) ^ m = D * (1 - eps) ^ Suc c / C * (1 - eps)"
    by (simp add: M_def m_def)
  also have "\<dots> \<le> S / C * (1 - eps)"
    using Sl Cpos B0 by (intro mult_right_mono divide_right_mono) simp_all
  also have "\<dots> \<le> Q" unfolding Q_def using SC0 by (rule fl_lower)
  finally have Ql: "M * (1 - eps) ^ m \<le> Q" .
  have Q0: "0 \<le> Q" unfolding Q_def using SC0 by (rule fl_nonneg)
  have mle: "m \<le> 1000002" using len by (simp add: m_def c_def)
  then have "(of_nat m :: rat) \<le> of_nat 1000002" by (simp only: of_nat_le_iff)
  then have mr: "(of_nat m :: rat) \<le> 1000002" by simp
  have meps: "2 * of_nat m * eps \<le> 1"
  proof -
    have "2 * of_nat m * eps \<le> 2 * 1000002 * eps"
      using mr eps_pos by (intro mult_right_mono mult_left_mono) simp_all
    also have "\<dots> \<le> 1" by (simp add: eps_def)
    finally show ?thesis .
  qed
  have "M * (1 + eps) ^ m \<le> M * (1 + 2 * of_nat m * eps)"
    using one_plus_eps_power_le[OF meps] M0 by (intro mult_left_mono)
  with Qu have "Q - M \<le> M * (2 * of_nat m * eps)" by (simp add: algebra_simps)
  also have "\<dots> \<le> 5 * (2 * of_nat m * eps)"
    using M5 eps_pos by (intro mult_right_mono) simp_all
  finally have up: "Q - M \<le> 10 * of_nat m * eps" by simp
  have "M * (1 - of_nat m * eps) \<le> M * (1 - eps) ^ m"
    using one_minus_eps_power_ge[of m] M0 by (intro mult_left_mono)
  with Ql have "M - Q \<le> M * (of_nat m * eps)" by (simp add: algebra_simps)
  also have "\<dots> \<le> 5 * (of_nat m * eps)"
    using M5 eps_pos by (intro mult_right_mono) simp_all
  finally have lo: "M - Q \<le> 5 * of_nat m * eps" by simp
  have me0: "0 \<le> of_nat m * eps" using eps_pos by simp
  have err: "\<bar>100 * Q - 100 * M\<bar> \<le> 1000 * (of_nat m * eps)"
    using up lo me0 by linarith
  have hundred: "100 * M = of_int T / of_nat c"
    by (simp add: M_def D_def C_def)
  have small: "1000 * (of_nat m * eps) < 1 / (2 * of_nat c)"
  proof -
    have "c * m \<le> 1000000 * 1000002"
      using len mle unfolding c_def by (intro mult_mono) simp_all
    then have "(of_nat (c * m) :: rat) \<le> of_nat (1000000 * 1000002)"
      by (simp only: of_nat_le_iff)
    then have "C * of_nat m \<le> 1000000 * 1000002"
      by (simp add: C_def)
    then have "2000 * (C * of_nat m) < 2 ^ 53" by simp
    then have "2000 * (C * of_nat m) * eps < 2 ^ 53 * eps"
      using eps_pos by (intro mult_strict_right_mono)
    then have "2 * C * (1000 * (of_nat m * eps)) < 1"
      by (simp add: eps_def algebra_simps)
    then have "1000 * (of_nat m * eps) < 1 / (2 * C)"
      using Cpos by (simp add: field_simps)
    then show ?thesis by (simp only: C_def)
  qed
  from err small have "\<bar>100 * Q - 100 * M\<bar> < 1 / (2 * of_nat c)"
    by linarith
  then have "\<bar>100 * Q - of_int T / of_nat c\<bar> < 1 / (2 * of_nat c)"
    by (simp only: hundred)
  from nearest_of_close[OF cpos this]
  have near: "\<bar>rat_of_int \<lfloor>100 * Q + 1 / 2\<rfloor> - of_int T / of_nat c\<bar> \<le> 1 / 2" .
  define h where "h = \<lfloor>100 * Q + 1 / 2\<rfloor>"
  have h0: "0 \<le> h" unfolding h_def using Q0 by simp
  have "100 * M \<le> 500" using M5 by simp
  with near have "rat_of_int h \<le> 500 + 1 / 2" unfolding h_def hundred[symmetric] by linarith
  then have "rat_of_int h < of_int 501" by simp
  then have "h < 501" by (simp only: of_int_less_iff)
  then have h500: "h \<le> 500" by simp
  have "toFixed2 (js_div (js_sum (map to_number hs) 0) (of_nat (length hs))) = h"
    using Q0 by (simp add: js_div_def toFixed2_nonneg h_def Q_def S_def C_def c_def)
  with h0 h500 near show ?thesis
    unfolding h_def T_def c_def by blast
qed

lemma answers_or_empty_resolved:
  "\<not> inherits m (area_id a) \<Longrightarrow> answers_or_empty m a = Array (recorded_answers m a)"
  by (simp add: answers_or_empty_def recorded_answers_def js_get_resolved split: option.splits)

lemma calculateDomainScore_loop_eq:
  assumes "\<forall>a\<in>set as. \<not> inherits m (area_id a)"
  shows "calculateDomainScore_loop as m s c =
           Inr (js_sum (map (area_term m) as) s, c + length as)"
  using assms
  by (induction as arbitrary: s c)
     (simp_all add: Let_def area_term_def answers_or_empty_resolved)

lemma calculateOverallScore_loop_eq:
  assumes "\<forall>d\<in>set ds. \<exists>x. calculateDomainScore (areas d) m = Inr x"
  shows "calculateOverallScore_loop ds m s c =
     Inr (js_sum (map (\<lambda>d. score_value (calculateDomainScore (areas d) m)) ds) s,
          c + length ds)"
  using assms
  by (induction ds arbitrary: s c) (auto simp: score_value_def)

lemma to_number_0 [simp]: "to_number 0 = 0"
  by (simp add: to_number_def)

lemma sum_list_decimal2:
  "(\<Sum>t\<leftarrow>ts. decimal2 t) = of_int (sum_list (map toFixed2 ts)) / 100"
  by (induction ts) (simp_all add: decimal2_def add_divide_distrib)

lemma mean_of_scores:
  assumes ne: "ts \<noteq> []" and len: "length ts \<le> 1000000"
    and sc: "\<forall>t\<in>set ts. \<exists>h. t = to_number h \<and> 0 \<le> h \<and> h \<le> 500"
  shows "\<exists>h. to_number (toFixed2 (js_div (js_sum ts 0) (of_nat (length ts)))) = to_number h
            \<and> 0 \<le> h \<and> h \<le> 500
            \<and> \<bar>rat_of_int h / 100 - (\<Sum>t\<leftarrow>ts. decimal2 t) / of_nat (length ts)\<bar> \<le> 1 / 200"
proof -
  define hs where "hs = map toFixed2 ts"
  have rt: "to_number (toFixed2 t) = t" and rng1: "0 \<le> toFixed2 t \<and> toFixed2 t \<le> 500"
    if "t \<in> set ts" for t
  proof -
    from sc that obtain h where h: "t = to_number h" "0 \<le> h" "h \<le> 500" by blast
    then have "toFixed2 t = h" by (simp add: toFixed2_to_number)
    with h show "to_number (toFixed2 t) = t" "0 \<le> toFixed2 t \<and> toFixed2 t \<le> 500"
      by simp_all
  qed
  have ts: "map to_number hs = ts"
    unfolding hs_def using rt by (simp add: map_idI)
  have hne: "hs \<noteq> []" and hlen: "length hs \<le> 1000000" and lens: "length hs = length ts"
    using ne len by (simp_all add: hs_def)
  have rng: "\<forall>h\<in>set hs. 0 \<le> h \<and> h \<le> 500"
    using rng1 by (auto simp: hs_def)
  from js_mean_nearest[OF hne hlen rng] obtain h where
    h: "toFixed2 (js_div (js_sum (map to_number hs) 0) (of_nat (length hs))) = h"
       "0 \<le> h" "h \<le> 500"
       "\<bar>rat_of_int h - of_int (sum_list hs) / of_nat (length hs)\<bar> \<le> 1 / 2"
    by blast
  have "rat_of_int h / 100 - (\<Sum>t\<leftarrow>ts. decimal2 t) / of_nat (length ts)
        = (rat_of_int h - of_int (sum_list hs) / of_nat (length hs)) / 100"
    by (simp add: sum_list_decimal2 hs_def diff_divide_distrib)
  then have "\<bar>rat_of_int h / 100 - (\<Sum>t\<leftarrow>ts. decimal2 t) / of_nat (length ts)\<bar>
        = \<bar>(rat_of_int h - of_int (sum_list hs) / of_nat (length hs)) / 100\<bar>"
    by (rule arg_cong)
  also have "\<dots> = \<bar>rat_of_int h - of_int (sum_list hs) / of_nat (length hs)\<bar> / 100"
    by (simp only: abs_divide abs_numeral)
  also have "\<dots> \<le> (1 / 2) / 100"
    using h(4) by (intro divide_right_mono) simp_all
  finally have "\<bar>rat_of_int h / 100 - (\<Sum>t\<leftarrow>ts. decimal2 t) / of_nat (length ts)\<bar> \<le> 1 / 200"
    by simp
  moreover have "to_number (toFixed2 (js_div (js_sum ts 0) (of_nat (length ts)))) = to_number h"
    using h(1) by (simp add: ts lens)
  ultimately show ?thesis using h(2,3) by blast
qed

lemma area_term_hundredths:
  assumes "length (recorded_answers m a) < 2 ^ 32"
  shows "\<exists>h. area_term m a = to_number h \<and> 0 \<le> h \<and> h \<le> 500"
proof (cases "length (recorded_answers m a) = 0 \<and> has_questions a")
  case True
  then have "area_term m a = to_number 0" by (simp add: area_term_def)
  then show ?thesis by force
next
  case False
  with area_score_hundredths[OF assms] show ?thesis
    by (auto simp: area_term_def)
qed

lemma area_term_unanswered: "recorded_answers m a = [] \<Longrightarrow> area_term m a = 0"
  by (simp add: area_term_def calculateAreaScore_Nil)

lemma calculateDomainScore_eq:
  "as \<noteq> [] \<Longrightarrow> \<forall>a\<in>set as. \<not> inherits m (area_id a) \<Longrightarrow>
   calculateDomainScore as m =
     Inr (to_number (toFixed2 (js_div (js_sum (map (area_term m) as) 0) (of_nat (length as)))))"
  by (simp add: calculateDomainScore_def calculateDomainScore_loop_eq)

lemma calculateDomainScore_unanswered:
  assumes "\<not> inherits m (area_id a)" and "recorded_answers m a = []"
  shows "calculateDomainScore [a] m = Inr 0"
proof -
  have "area_term m a = 0" using assms(2) by (rule area_term_unanswered)
  then show ?thesis
    using assms(1) by (simp add: calculateDomainScore_eq js_add_def js_div_def toFixed2_def)
qed

lemma calculateOverallScore_eq:
  "ds \<noteq> [] \<Longrightarrow> \<forall>d\<in>set ds. \<exists>x. calculateDomainScore (areas d) m = Inr x \<Longrightarrow>
   calculateOverallScore ds m =
     Inr (to_number (toFixed2 (js_div
            (js_sum (map (\<lambda>d. score_value (calculateDomainScore (areas d) m)) ds) 0)
            (of_nat (length ds)))))"
  by (simp add: calculateOverallScore_def calculateOverallScore_loop_eq)

lemma domain_score_hundredths:
  assumes "as \<noteq> []" and "length as \<le> 1000000"
    and "\<forall>a\<in>set as. \<not> inherits m (area_id a) \<and> length (recorded_answers m a) < 2 ^ 32"
  shows "\<exists>h. calculateDomainScore as m = Inr (to_number h) \<and> 0 \<le> h \<and> h \<le> 500
            \<and> \<bar>rat_of_int h / 100 - (\<Sum>a\<leftarrow>as. decimal2 (area_term m a)) / of_nat (length as)\<bar>
                \<le> 1 / 200"
proof -
  have "\<forall>t\<in>set (map (area_term m) as). \<exists>h. t = to_number h \<and> 0 \<le> h \<and> h \<le> 500"
    using assms(3) area_term_hundredths by auto
  from mean_of_scores[OF _ _ this] assms
  show ?thesis by (simp add: calculateDomainScore_eq comp_def)
qed

lemma domain_score_hundredths_any:
  assumes "length as \<le> 1000000"
    and "\<forall>a\<in>set as. \<not> inherits m (area_id a) \<and> length (recorded_answers m a) < 2 ^ 32"
  shows "\<exists>h. calculateDomainScore as m = Inr (to_number h) \<and> 0 \<le> h \<and> h \<le> 500"
proof (cases "as = []")
  case True
  then have "calculateDomainScore as m = Inr (to_number 0)" by (simp add: calculateDomainScore_def)
  then show ?thesis by force
next
  case False
  from domain_score_hundredths[OF False assms] show ?thesis by blast
qed

lemma overall_score_hundredths:
  assumes "ds \<noteq> []" and "length ds \<le> 1000000"
    and "\<forall>d\<in>set ds. length (areas d) \<le> 1000000
           \<and> (\<forall>a\<in>set (areas d). \<not> inherits m (area_id a)
                 \<and> length (recorded_answers m a) < 2 ^ 32)"
  shows "(\<forall>d\<in>set ds. \<exists>x. calculateDomainScore (areas d) m = Inr x)
     \<and> (\<exists>h. calculateOverallScore ds m = Inr (to_number h) \<and> 0 \<le> h \<and> h \<le> 500
            \<and> \<bar>rat_of_int h / 100
                 - (\<Sum>d\<leftarrow>ds. decimal2 (score_value (calculateDomainScore (areas d) m)))
                   / of_nat (length ds)\<bar>
                \<le> 1 / 200)"
proof -
  have each: "\<exists>h. calculateDomainScore (areas d) m = Inr (to_number h) \<and> 0 \<le> h \<and> h \<le> 500"
    if "d \<in> set ds" for d
    using assms(3) that by (intro domain_score_hundredths_any) auto
  then have ret: "\<forall>d\<in>set ds. \<exists>x. calculateDomainScore (areas d) m = Inr x"
    by blast
  have "\<forall>t\<in>set (map (\<lambda>d. score_value (calculateDomainScore (areas d) m)) ds).
          \<exists>h. t = to_number h \<and> 0 \<le> h \<and> h \<le> 500"
  proof
    fix t assume "t \<in> set (map (\<lambda>d. score_value (calculateDomainScore (areas d) m)) ds)"
    then obtain d where d: "d \<in> set ds" "t = score_value (calculateDomainScore (areas d) m)"
      by auto
    from each[OF d(1)] obtain h where
      "calculateDomainScore (areas d) m = Inr (to_number h)" "0 \<le> h" "h \<le> 500" by blast
    with d(2) show "\<exists>h. t = to_number h \<and> 0 \<le> h \<and> h \<le> 500"
      by (auto simp: score_value_def)
  qed
  from mean_of_scores[OF _ _ this] assms(1,2) ret
  show ?thesis by (simp add: calculateOverallScore_eq comp_def)
qed

lemmas sample_defs = sample_answers_def area_vision_def area_roadmap_def area_tooling_def
  scored_domain_one_def scored_domain_two_def tie_answers_def area_security_def
  area_culture_def tie_domain_one_def tie_domain_two_def area_constructor_def
  domain_governance_def

lemmas score_unfold = calculateOverallScore_def calculateDomainScore_def
  calculateAreaScore_def answers_or_empty_def js_get_def object_prototype_def
  recorded_answers_def has_questions_def area_term_def decimal2_def score_value_def

text \<open>
  C4, as the code has it. \<open>calculateDomainScore\<close> of no areas is 0. Otherwise, when no
  area id resolves to an inherited member of \<open>Object.prototype\<close> in the answer map,
  every area adds exactly one term and the divisor is the number of areas; an area
  with nothing recorded adds 0. The result is the double of a two-decimal number
  within 0.005 of the mean of the areas' two-decimal scores: that mean rounded to two
  decimals unless it ends in an exact 5 at the third decimal, where either neighbour
  may come out. Proved for up to 1000000 areas with answer arrays of fewer than \<open>2^32\<close>
  entries. Two areas, one answered \<open>[true, true]\<close> and one with three questions and
  nothing recorded, score 2.50.
\<close>

theorem calculateDomainScore_mean:
  "calculateDomainScore [] m = Inr 0
   \<and> (domainAreas \<noteq> [] \<and> length domainAreas \<le> 1000000
        \<and> (\<forall>a\<in>set domainAreas. \<not> inherits m (area_id a)
              \<and> length (recorded_answers m a) < 2 ^ 32)
      \<longrightarrow> (\<exists>h. calculateDomainScore domainAreas m = Inr (to_number h) \<and> 0 \<le> h \<and> h \<le> 500
             \<and> \<bar>rat_of_int h / 100
                  - (\<Sum>a\<leftarrow>domainAreas. decimal2 (area_term m a)) / of_nat (length domainAreas)\<bar>
                 \<le> 1 / 200))
   \<and> (\<not> inherits m (area_id a) \<and> recorded_answers m a = []
      \<longrightarrow> area_term m a = 0 \<and> calculateDomainScore [a] m = Inr 0)
   \<and> calculateDomainScore [area_vision, area_tooling] sample_answers = Inr (5 / 2)"
proof -
  have "calculateDomainScore [area_vision, area_tooling] sample_answers = Inr (5 / 2)"
    by (simp add: score_unfold sample_defs) (simp add: num_eval)
  moreover have "calculateDomainScore [] m = Inr 0"
    by (simp add: calculateDomainScore_def)
  ultimately show ?thesis
    using domain_score_hundredths[of domainAreas m] area_term_unanswered[of m a]
      calculateDomainScore_unanswered[of m a] by blast
qed

theorem calculateDomainScore_mean_witness:
  "[area_vision, area_tooling] \<noteq> []
   \<and> length [area_vision, area_tooling] \<le> 1000000
   \<and> list_all (\<lambda>a. \<not> inherits sample_answers (area_id a)
                  \<and> length (recorded_answers sample_answers a) < 2 ^ 32)
        [area_vision, area_tooling]
   \<and> recorded_answers sample_answers area_tooling = [] \<and> has_questions area_tooling
   \<and> area_term sample_answers area_tooling = 0
   \<and> calculateDomainScore [area_tooling] sample_answers = Inr 0
   \<and> decimal2 (area_term sample_answers area_vision) = 5
   \<and> calculateDomainScore [area_vision, area_tooling] sample_answers = Inr (5 / 2)
   \<and> (\<exists>h. calculateDomainScore [area_vision, area_tooling] sample_answers = Inr (to_number h)
          \<and> \<bar>rat_of_int h / 100 - (5 + 0) / 2\<bar> \<le> 1 / 200)"
proof -
  have a: "recorded_answers sample_answers area_tooling = []" "has_questions area_tooling"
    "list_all (\<lambda>a. \<not> inherits sample_answers (area_id a)
                  \<and> length (recorded_answers sample_answers a) < 2 ^ 32)
        [area_vision, area_tooling]"
    by (simp_all add: recorded_answers_def has_questions_def inherits_def object_prototype_def
          sample_defs)
  have b: "decimal2 (area_term sample_answers area_vision) = 5"
    "decimal2 (area_term sample_answers area_tooling) = 0"
    by (simp_all add: score_unfold sample_defs) (simp_all add: num_eval)
  note inst = calculateDomainScore_mean [of sample_answers "[area_vision, area_tooling]" area_tooling]
  have n: "\<not> inherits sample_answers (area_id area_tooling)"
    using a(3) by simp
  from inst a(1) n have c: "area_term sample_answers area_tooling = 0"
    "calculateDomainScore [area_tooling] sample_answers = Inr 0"
    "calculateDomainScore [area_vision, area_tooling] sample_answers = Inr (5 / 2)"
    by simp_all
  have hyp: "[area_vision, area_tooling] \<noteq> [] \<and> length [area_vision, area_tooling] \<le> 1000000
        \<and> (\<forall>a\<in>set [area_vision, area_tooling]. \<not> inherits sample_answers (area_id a)
              \<and> length (recorded_answers sample_answers a) < 2 ^ 32)"
    using a(3) by simp
  from inst [THEN conjunct2, THEN conjunct1, rule_format, OF hyp] obtain h where
    "calculateDomainScore [area_vision, area_tooling] sample_answers = Inr (to_number h)"
    "\<bar>rat_of_int h / 100
       - (\<Sum>a\<leftarrow>[area_vision, area_tooling]. decimal2 (area_term sample_answers a))
         / of_nat (length [area_vision, area_tooling])\<bar> \<le> 1 / 200"
    by blast
  then have "\<exists>h. calculateDomainScore [area_vision, area_tooling] sample_answers
               = Inr (to_number h)
          \<and> \<bar>rat_of_int h / 100 - (5 + 0) / 2\<bar> \<le> 1 / 200"
    using b by (intro exI[of _ h]) simp
  with a b c show ?thesis by simp
qed

text \<open>
  C4 as stated fails in two ways. At an exact tie: areas scoring 1.67 and 5.00 have
  the mean 3.335, which rounds to 3.34, but the doubles give \<open>(1.67 + 5) / 2\<close> just
  below 3.335 and \<open>toFixed(2)\<close> prints 3.33. For an area id that names a member of
  \<open>Object.prototype\<close>: with nothing recorded for the area \<open>constructor\<close>, \<open>arr\<close> is the
  inherited function, and \<open>calculateAreaScore\<close> throws a TypeError instead of adding 0.
\<close>

theorem calculateDomainScore_tie_counterexample:
  "calculateDomainScore [area_security, area_culture] tie_answers = Inr (to_number 333)
   \<and> decimal2 (area_term tie_answers area_security) = 167 / 100
   \<and> decimal2 (area_term tie_answers area_culture) = 5
   \<and> spec_round2 ((167 / 100 + 5) / 2) = 334 / 100
   \<and> to_number 333 < 334 / 100 - 9 / 1000
   \<and> map_of [] (area_id area_constructor) = (None :: answer list option)
   \<and> has_questions area_constructor
   \<and> calculateDomainScore [area_constructor] [] = Inl TypeError"
  by (simp add: score_unfold sample_defs spec_round2_def) (simp add: num_eval)

text \<open>
  C5, as the code has it. \<open>calculateOverallScore\<close> of no domains is 0. Otherwise, when
  no area id resolves to an inherited member of \<open>Object.prototype\<close> in the answer map,
  every call of \<open>calculateDomainScore\<close> returns and the result is the double of a
  two-decimal number within 0.005 of the mean of \<open>calculateDomainScore\<close> over each
  domain's areas, every domain counting once: that mean rounded to two decimals unless
  it ends in an exact 5 at the third decimal, where either neighbour may come out.
  Proved for up to 1000000 domains of up to 1000000 areas each. Two domains scoring
  2.50 and 5.00 give 3.75.
\<close>

theorem calculateOverallScore_mean:
  "calculateOverallScore [] m = Inr 0
   \<and> (selectedDomains \<noteq> [] \<and> length selectedDomains \<le> 1000000
        \<and> (\<forall>d\<in>set selectedDomains. length (areas d) \<le> 1000000
              \<and> (\<forall>a\<in>set (areas d). \<not> inherits m (area_id a)
                    \<and> length (recorded_answers m a) < 2 ^ 32))
      \<longrightarrow> (\<forall>d\<in>set selectedDomains. \<exists>x. calculateDomainScore (areas d) m = Inr x)
          \<and> (\<exists>h. calculateOverallScore selectedDomains m = Inr (to_number h)
                 \<and> 0 \<le> h \<and> h \<le> 500
                 \<and> \<bar>rat_of_int h / 100
                      - (\<Sum>d\<leftarrow>selectedDomains.
                            decimal2 (score_value (calculateDomainScore (areas d) m)))
                        / of_nat (length selectedDomains)\<bar>
                     \<le> 1 / 200))
   \<and> calculateDomainScore (areas scored_domain_one) sample_answers = Inr (5 / 2)
   \<and> calculateDomainScore (areas scored_domain_two) sample_answers = Inr 5
   \<and> calculateOverallScore [scored_domain_one, scored_domain_two] sample_answers = Inr (15 / 4)"
proof -
  have "calculateDomainScore (areas scored_domain_one) sample_answers = Inr (5 / 2)"
    "calculateDomainScore (areas scored_domain_two) sample_answers = Inr 5"
    "calculateOverallScore [scored_domain_one, scored_domain_two] sample_answers = Inr (15 / 4)"
    by (simp_all add: score_unfold sample_defs) (simp_all add: num_eval)
  moreover have "calculateOverallScore [] m = Inr 0"
    by (simp add: calculateOverallScore_def)
  ultimately show ?thesis
    using overall_score_hundredths[of selectedDomains m] by blast
qed

theorem calculateOverallScore_mean_witness:
  "[scored_domain_one, scored_domain_two] \<noteq> []
   \<and> length [scored_domain_one, scored_domain_two] \<le> 1000000
   \<and> list_all (\<lambda>d. length (areas d) \<le> 1000000
         \<and> list_all (\<lambda>a. \<not> inherits sample_answers (area_id a)
                       \<and> length (recorded_answers sample_answers a) < 2 ^ 32) (areas d))
        [scored_domain_one, scored_domain_two]
   \<and> calculateOverallScore [scored_domain_one, scored_domain_two] sample_answers = Inr (15 / 4)
   \<and> (\<exists>h. calculateOverallScore [scored_domain_one, scored_domain_two] sample_answers
              = Inr (to_number h)
          \<and> \<bar>rat_of_int h / 100 - (5 / 2 + 5) / 2\<bar> \<le> 1 / 200)"
proof -
  have a: "list_all (\<lambda>d. length (areas d) \<le> 1000000
         \<and> list_all (\<lambda>a. \<not> inherits sample_answers (area_id a)
                       \<and> length (recorded_answers sample_answers a) < 2 ^ 32) (areas d))
        [scored_domain_one, scored_domain_two]"
    by (simp add: recorded_answers_def inherits_def object_prototype_def sample_defs)
  have b: "decimal2 (5 / 2) = 5 / 2" "decimal2 5 = 5"
    by (simp_all add: decimal2_def toFixed2_def)
  note inst = calculateOverallScore_mean [of sample_answers "[scored_domain_one, scored_domain_two]"]
  from inst have c:
    "calculateDomainScore (areas scored_domain_one) sample_answers = Inr (5 / 2)"
    "calculateDomainScore (areas scored_domain_two) sample_answers = Inr 5"
    "calculateOverallScore [scored_domain_one, scored_domain_two] sample_answers = Inr (15 / 4)"
    by simp_all
  have hyp: "[scored_domain_one, scored_domain_two] \<noteq> []
        \<and> length [scored_domain_one, scored_domain_two] \<le> 1000000
        \<and> (\<forall>d\<in>set [scored_domain_one, scored_domain_two]. length (areas d) \<le> 1000000
              \<and> (\<forall>a\<in>set (areas d). \<not> inherits sample_answers (area_id a)
                    \<and> length (recorded_answers sample_answers a) < 2 ^ 32))"
    using a by (simp add: list_all_iff)
  from inst [THEN conjunct2, THEN conjunct1, rule_format, OF hyp, THEN conjunct2] obtain h where
    "calculateOverallScore [scored_domain_one, scored_domain_two] sample_answers
       = Inr (to_number h)"
    "\<bar>rat_of_int h / 100
       - (\<Sum>d\<leftarrow>[scored_domain_one, scored_domain_two].
             decimal2 (score_value (calculateDomainScore (areas d) sample_answers)))
         / of_nat (length [scored_domain_one, scored_domain_two])\<bar> \<le> 1 / 200"
    by blast
  then have "\<exists>h. calculateOverallScore [scored_domain_one, scored_domain_two] sample_answers
              = Inr (to_number h)
          \<and> \<bar>rat_of_int h / 100 - (5 / 2 + 5) / 2\<bar> \<le> 1 / 200"
    using b c(1,2) by (intro exI[of _ h]) (simp add: score_value_def)
  with a c show ?thesis by simp
qed

text \<open>
  C5 as stated fails in two ways. At an exact tie: domains scoring 1.67 and 5.00 have
  the mean 3.335, which rounds to 3.34; the code returns 3.33. For an area id that
  names a member of \<open>Object.prototype\<close>: the TypeError of \<open>calculateDomainScore\<close> on the
  area \<open>constructor\<close> ends \<open>calculateOverallScore\<close> too.
\<close>

theorem calculateOverallScore_tie_counterexample:
  "calculateOverallScore [tie_domain_one, tie_domain_two] tie_answers = Inr (to_number 333)
   \<and> calculateDomainScore (areas tie_domain_one) tie_answers = Inr (to_number 167)
   \<and> calculateDomainScore (areas tie_domain_two) tie_answers = Inr 5
   \<and> decimal2 (to_number 167) = 167 / 100 \<and> decimal2 5 = 5
   \<and> spec_round2 ((167 / 100 + 5) / 2) = 334 / 100
   \<and> to_number 333 < 334 / 100 - 9 / 1000
   \<and> calculateOverallScore [domain_governance] [] = Inl TypeError"
  by (simp add: score_unfold sample_defs spec_round2_def) (simp add: num_eval)

section \<open>Persistence\<close>

lemma getItem_after_setItem:
  assumes "setItem st key s = Inr st'"
  shows "getItem st' key = Inr (Some s)"
  using assms
  by (auto simp: setItem_def getItem_def Let_def update_conv' split: if_splits)

lemma saveLocal_cases:
  "saveLocal stringify st key v =
     (case stringify v of
        Inl e \<Rightarrow> Inr st
      | Inr s \<Rightarrow> (case setItem st key s of Inl e \<Rightarrow> Inr st | Inr st' \<Rightarrow> Inr st'))"
  by (simp add: saveLocal_def try_catch_def and_then_def split: sum.splits)

lemma loadLocal_cases:
  "loadLocal parse st key fallback =
     (case getItem st key of
        Inl e \<Rightarrow> Inr fallback
      | Inr None \<Rightarrow> Inr fallback
      | Inr (Some s) \<Rightarrow>
          if s = [] then Inr fallback
          else (case parse s of Inl e \<Rightarrow> Inr fallback | Inr x \<Rightarrow> Inr x))"
  by (simp add: loadLocal_def try_catch_def and_then_def split: sum.splits option.splits)

text \<open>
  C9, as the code has it. Neither \<open>saveLocal\<close> nor \<open>loadLocal\<close> ever ends in an error:
  \<open>saveLocal\<close> swallows a failure of \<open>JSON.stringify\<close> or of \<open>setItem\<close> and leaves the
  storage as it was, \<open>loadLocal\<close> returns the fallback when \<open>getItem\<close> or \<open>JSON.parse\<close>
  fails. When \<open>v\<close> serialises to a text that parses back to \<open>v\<close> (a JSON text is never
  empty) and the storage accepts the write, \<open>loadLocal\<close> on the storage \<open>saveLocal\<close> left
  returns \<open>v\<close>.
\<close>

theorem saveLocal_loadLocal:
  "(\<exists>st'. saveLocal stringify st key v = Inr st')
   \<and> (\<exists>x. loadLocal parse st key fallback = Inr x)
   \<and> (\<forall>e. stringify v = Inl e \<longrightarrow> saveLocal stringify st key v = Inr st)
   \<and> (\<forall>s e. stringify v = Inr s \<and> setItem st key s = Inl e
          \<longrightarrow> saveLocal stringify st key v = Inr st)
   \<and> (\<forall>e. getItem st key = Inl e \<longrightarrow> loadLocal parse st key fallback = Inr fallback)
   \<and> (\<forall>s e. getItem st key = Inr (Some s) \<and> parse s = Inl e
          \<longrightarrow> loadLocal parse st key fallback = Inr fallback)
   \<and> (\<forall>s st'. stringify v = Inr s \<and> s \<noteq> [] \<and> parse s = Inr v \<and> setItem st key s = Inr st'
          \<longrightarrow> saveLocal stringify st key v = Inr st'
              \<and> loadLocal parse st' key fallback = Inr v)"
proof (intro conjI allI impI)
  show "\<exists>st'. saveLocal stringify st key v = Inr st'"
    by (simp add: saveLocal_cases split: sum.splits)
  show "\<exists>x. loadLocal parse st key fallback = Inr x"
    by (simp add: loadLocal_cases split: sum.splits option.splits)
next
  fix e assume "stringify v = Inl e"
  then show "saveLocal stringify st key v = Inr st" by (simp add: saveLocal_cases)
next
  fix s e assume "stringify v = Inr s \<and> setItem st key s = Inl e"
  then show "saveLocal stringify st key v = Inr st" by (simp add: saveLocal_cases)
next
  fix e assume "getItem st key = Inl e"
  then show "loadLocal parse st key fallback = Inr fallback" by (simp add: loadLocal_cases)
next
  fix s e assume "getItem st key = Inr (Some s) \<and> parse s = Inl e"
  then show "loadLocal parse st key fallback = Inr fallback" by (simp add: loadLocal_cases)
next
  fix s st'
  assume a: "stringify v = Inr s \<and> s \<noteq> [] \<and> parse s = Inr v \<and> setItem st key s = Inr st'"
  then show "saveLocal stringify st key v = Inr st'" by (simp add: saveLocal_cases)
  from a have "setItem st key s = Inr st'" by simp
  then have "getItem st' key = Inr (Some s)" by (rule getItem_after_setItem)
  with a show "loadLocal parse st' key fallback = Inr v" by (simp add: loadLocal_cases)
qed

theorem saveLocal_loadLocal_witness:
  "stringify_bool True = Inr ''true'' \<and> ''true'' \<noteq> [] \<and> parse_bool ''true'' = Inr True
   \<and> setItem empty_storage ''afs_selection'' ''true'' = Inr saved_storage
   \<and> saveLocal stringify_bool empty_storage ''afs_selection'' True = Inr saved_storage
   \<and> loadLocal parse_bool saved_storage ''afs_selection'' False = Inr True
   \<and> getItem empty_storage ''afs_selection'' = Inr None
   \<and> loadLocal parse_bool empty_storage ''afs_selection'' False = Inr False"
proof -
  have a: "stringify_bool True = Inr ''true'' \<and> ''true'' \<noteq> [] \<and> parse_bool ''true'' = Inr True
           \<and> setItem empty_storage ''afs_selection'' ''true'' = Inr saved_storage"
    by (simp add: stringify_bool_def parse_bool_def setItem_def empty_storage_def
          saved_storage_def storage_size_def)
  have b: "getItem empty_storage ''afs_selection'' = Inr None"
    "loadLocal parse_bool empty_storage ''afs_selection'' False = Inr False"
    by (simp_all add: getItem_def empty_storage_def loadLocal_def try_catch_def and_then_def)
  note inst = saveLocal_loadLocal [of stringify_bool empty_storage "''afs_selection''" True
      parse_bool False]
  from inst a have "saveLocal stringify_bool empty_storage ''afs_selection'' True = Inr saved_storage
    \<and> loadLocal parse_bool saved_storage ''afs_selection'' False = Inr True"
    by blast
  with a b show ?thesis by simp
qed

text \<open>
  C9 as stated fails when the write is refused: on a storage whose quota is used up,
  \<open>saveLocal\<close> of \<open>true\<close> changes nothing and \<open>loadLocal\<close> with the fallback \<open>false\<close>
  returns \<open>false\<close>.
\<close>

theorem saveLocal_loadLocal_counterexample:
  "stringify_bool True = Inr ''true'' \<and> parse_bool ''true'' = Inr True
   \<and> saveLocal stringify_bool full_storage ''afs_selection'' True = Inr full_storage
   \<and> loadLocal parse_bool full_storage ''afs_selection'' False = Inr False"
  by (simp add: stringify_bool_def parse_bool_def saveLocal_def loadLocal_def try_catch_def
        and_then_def setItem_def getItem_def full_storage_def storage_size_def)

end
